theory Spec2Isabelle
  imports Main
begin

section \<open>The build pipe of goreleaser (internal/pipe/build/build.go)\<close>

text \<open>
  A shallow embedding of the build pipe. Every collaborator the pipe calls without
  defining it (the template engine, the language builders, the file system, the
  process runner, the shell-word parser) is a field of the record \<open>sys\<close>; the pipe's
  own functions are HOL functions over it. Effects are recorded in a trace of events
  that is passed in and returned extended; a collaborator that touches the outside
  world reads the trace so far, so its answer may depend on everything done before.
\<close>

subsection \<open>Go's strings package, as far as the pipe uses it\<close>

fun strings_HasPrefix :: "string \<Rightarrow> string \<Rightarrow> bool" where
  "strings_HasPrefix s [] = True"
| "strings_HasPrefix [] (p # ps) = False"
| "strings_HasPrefix (c # cs) (p # ps) = (c = p \<and> strings_HasPrefix cs ps)"

fun strings_Contains :: "string \<Rightarrow> string \<Rightarrow> bool" where
  "strings_Contains [] substr = (substr = [])"
| "strings_Contains (c # cs) substr =
     (strings_HasPrefix (c # cs) substr \<or> strings_Contains cs substr)"

text \<open>
  \<open>strings.Split(s, sep)\<close> for a separator of one byte, which is the only way the pipe
  calls it (\<open>"_"\<close>): the pieces between the separators, in order.
\<close>

fun strings_Split :: "string \<Rightarrow> char \<Rightarrow> string list" where
  "strings_Split [] sep = [[]]"
| "strings_Split (c # cs) sep =
     (if c = sep then [] # strings_Split cs sep
      else (case strings_Split cs sep of
              [] \<Rightarrow> [[c]]
            | w # ws \<Rightarrow> (c # w) # ws))"

subsection \<open>Data model\<close>

text \<open>The fields of \<open>config.Build\<close>, \<open>config.Project\<close>, \<open>context.Context\<close> and
  \<open>builders.Options\<close> that the pipe reads or writes.\<close>

record BuildHook =
  Hook_Dir :: string
  Hook_Cmd :: string
  Hook_Env :: "string list"

record HookConfig =
  Pre :: "BuildHook list"
  Post :: "BuildHook list"

record BuildProxy =
  Proxy_Path :: string
  Proxy_Version :: string

record Build =
  ID :: string
  Lang :: string
  Binary :: string
  Env :: "string list"
  Targets :: "string list"
  Flags :: "string list"
  Hooks :: HookConfig
  Proxy :: BuildProxy
  Main :: string
  Dir :: string
  Skip :: bool

record Project =
  ProjectName :: string
  Dist :: string
  Builds :: "Build list"
  SingleBuild :: Build

text \<open>\<open>EnvStrings\<close> is what \<open>ctx.Env.Strings()\<close> returns.\<close>

record Context =
  Config :: Project
  EnvStrings :: "string list"
  Parallelism :: int
  SkipPostBuildHooks :: bool

record Options =
  Target :: string
  Ext :: string
  Os :: string
  Arch :: string
  Name :: string
  Path :: string

text \<open>
  Errors are values. \<open>External\<close> is an error made by a collaborator; \<open>Errorf\<close> is
  \<open>fmt.Errorf\<close> with its format string and arguments (\<open>W\<close> for \<open>%w\<close>, \<open>S\<close> for \<open>%s\<close>,
  \<open>Q\<close> for \<open>%q\<close>); \<open>Aggregate\<close> is the task group's collected errors;
  \<open>DuplicateID kind id n\<close> is the identifier registry's validation error (\<open>n\<close> entries of
  \<open>kind\<close> share \<open>id\<close>).
\<close>

datatype error =
    External string
  | Errorf string "fmtarg list"
  | Aggregate "error list"
  | DuplicateID string string nat
and fmtarg = W error | S string | Q string

text \<open>A call of the source returns, fails with an error, or panics.\<close>

datatype 'a result = Ok 'a | Err error | Panic string

subsection \<open>The extension policy\<close>

text \<open>The loop of \<open>extFor\<close> over the flags, entered for a Windows target.\<close>

fun extFor_flags :: "string list \<Rightarrow> string" where
  "extFor_flags [] = ''.exe''"
| "extFor_flags (s # flags) =
     (if s = ''-buildmode=c-shared'' then ''.dll''
      else if s = ''-buildmode=c-archive'' then ''.lib''
      else extFor_flags flags)"

definition extFor :: "string \<Rightarrow> string list \<Rightarrow> string" where
  "extFor target flags =
     (if strings_Contains target ''windows'' then extFor_flags flags
      else if target = ''js_wasm'' then ''.wasm''
      else '''')"

subsection \<open>Events and collaborators\<close>

datatype level = Debug | Info

datatype field = FStr string | FStrs "string list" | FBuild Build | FErr error

text \<open>
  What the pipe does to the outside world, in the order it does it: a log entry (level,
  fields, message), the file operations of the proxy (with their permission bits or
  open mode), a subprocess (directory, argument vector, environment: \<open>None\<close> when
  \<open>cmd.Env\<close> is left unset), and a call of a language builder's \<open>Build\<close>.
\<close>

datatype openmode = O_RDONLY | O_CREATE_TRUNC_RDWR

datatype event =
    Log level "(string \<times> field) list" string
  | Mkdir string nat
  | WriteFile string string nat
  | OpenFile string openmode nat
  | Copy string string
  | Exec string "string list" "string list option"
  | BuilderBuild string Build Options

type_synonym trace = "event list"

text \<open>The inputs of a template: \<open>tmpl.New(ctx)\<close> and what the \<open>With...\<close> calls add.\<close>

record tmpl =
  tmpl_ctx :: Context
  tmpl_opts :: "Options option"
  tmpl_env :: "string list option"
  tmpl_fields :: "(string \<times> string) list"

definition tmpl_New :: "Context \<Rightarrow> tmpl" where
  "tmpl_New ctx = \<lparr>tmpl_ctx = ctx, tmpl_opts = None, tmpl_env = None, tmpl_fields = []\<rparr>"

definition WithBuildOptions :: "tmpl \<Rightarrow> Options \<Rightarrow> tmpl" where
  "WithBuildOptions t opts = t\<lparr>tmpl_opts := Some opts\<rparr>"

definition WithEnvS :: "tmpl \<Rightarrow> string list \<Rightarrow> tmpl" where
  "WithEnvS t envs = t\<lparr>tmpl_env := Some envs\<rparr>"

definition WithExtraFields :: "tmpl \<Rightarrow> (string \<times> string) list \<Rightarrow> tmpl" where
  "WithExtraFields t fs = t\<lparr>tmpl_fields := tmpl_fields t @ fs\<rparr>"

text \<open>
  The collaborators. \<open>builders_WithDefaults lang\<close> and \<open>builders_Build lang\<close> stand for
  \<open>builders.For(lang).WithDefaults\<close> and \<open>builders.For(lang).Build\<close>; they may panic
  (no builder registered under \<open>lang\<close>). \<open>exec_Run\<close> runs a subprocess to its end and
  returns its combined output with its error, if any.
\<close>

record sys =
  tmpl_Apply :: "tmpl \<Rightarrow> string \<Rightarrow> error + string"
  os_ExpandEnv :: "string \<Rightarrow> string"
  builders_WithDefaults :: "string \<Rightarrow> Build \<Rightarrow> Build result"
  builders_Build :: "string \<Rightarrow> trace \<Rightarrow> Context \<Rightarrow> Build \<Rightarrow> Options \<Rightarrow> unit result"
  IsProxied :: "Build \<Rightarrow> bool"
  os_Mkdir :: "trace \<Rightarrow> string \<Rightarrow> nat \<Rightarrow> error option"
  os_WriteFile :: "trace \<Rightarrow> string \<Rightarrow> string \<Rightarrow> nat \<Rightarrow> error option"
  os_OpenFile :: "trace \<Rightarrow> string \<Rightarrow> openmode \<Rightarrow> nat \<Rightarrow> error option"
  io_Copy :: "trace \<Rightarrow> string \<Rightarrow> string \<Rightarrow> error option"
  exec_Run :: "trace \<Rightarrow> string \<Rightarrow> string list \<Rightarrow> string list option \<Rightarrow> string \<times> error option"
  shellwords_Parse :: "string \<Rightarrow> error + string list"
  filepath_Join :: "string list \<Rightarrow> string"
  filepath_Abs :: "string \<Rightarrow> error + string"

subsection \<open>The process runner\<close>

text \<open>
  \<open>cmd.Env = env\<close>. The one caller, \<open>runHook\<close>, builds \<open>env\<close> by appending to a nil
  slice, so an \<open>env\<close> without entries is nil, and with a nil \<open>Env\<close> the subprocess
  inherits the environment of the running process: \<open>None\<close>.
\<close>

definition cmd_Env :: "string list \<Rightarrow> string list option" where
  "cmd_Env env = (if env = [] then None else Some env)"

text \<open>\<open>command[0]\<close> panics on an empty argument vector.\<close>

definition run :: "sys \<Rightarrow> Context \<Rightarrow> string \<Rightarrow> string list \<Rightarrow> string list \<Rightarrow> trace
    \<Rightarrow> unit result \<times> trace" where
  "run sy ctx dir command env tr =
     (if length command = 0 then (Panic ''index out of range [0] with length 0'', tr)
      else
        let cmd_Dir = (if dir \<noteq> '''' then dir else '''');
            tr1 = tr @ [Log Debug [(''cmd'', FStrs command), (''env'', FStrs env)] ''running''];
            tr2 = tr1 @ [Exec cmd_Dir command (cmd_Env env)]
        in (case exec_Run sy tr1 cmd_Dir command (cmd_Env env) of
              (b, None) \<Rightarrow> (Ok (), tr2)
            | (b, Some err) \<Rightarrow>
                (Err (Errorf ''%q: %w'' [Q b, W err]),
                 tr2 @ [Log Debug [(''cmd'', FStrs command), (''error'', FErr err)] ''failed''])))"

subsection \<open>The hook runner\<close>

text \<open>The inner loop of \<open>runHook\<close>: the hook's own entries, expanded and appended.\<close>

fun runHook_env :: "sys \<Rightarrow> tmpl \<Rightarrow> string list \<Rightarrow> string list \<Rightarrow> error + string list" where
  "runHook_env sy t [] env = Inr env"
| "runHook_env sy t (rawEnv # rest) env =
     (case tmpl_Apply sy t rawEnv of
        Inl err \<Rightarrow> Inl err
      | Inr e \<Rightarrow> runHook_env sy t rest (env @ [e]))"

text \<open>The body of the loop of \<open>runHook\<close>, for one hook.\<close>

definition runHook_body :: "sys \<Rightarrow> Context \<Rightarrow> Options \<Rightarrow> string list \<Rightarrow> BuildHook \<Rightarrow> trace
    \<Rightarrow> unit result \<times> trace" where
  "runHook_body sy ctx opts buildEnv hook tr =
     (case runHook_env sy (WithBuildOptions (tmpl_New ctx) opts) (Hook_Env hook)
             ([] @ EnvStrings ctx @ buildEnv) of
        Inl err \<Rightarrow> (Err err, tr)
      | Inr env \<Rightarrow>
          (case tmpl_Apply sy (WithBuildOptions (tmpl_New ctx) opts) (Hook_Dir hook) of
             Inl err \<Rightarrow> (Err err, tr)
           | Inr dir \<Rightarrow>
               (case tmpl_Apply sy (WithEnvS (WithBuildOptions (tmpl_New ctx) opts) env)
                       (Hook_Cmd hook) of
                  Inl err \<Rightarrow> (Err err, tr)
                | Inr sh \<Rightarrow>
                    let tr1 = tr @ [Log Info [(''hook'', FStr sh)] ''running hook''] in
                    (case shellwords_Parse sy sh of
                       Inl err \<Rightarrow> (Err err, tr1)
                     | Inr cmd \<Rightarrow> run sy ctx dir cmd env tr1))))"

fun runHook_loop :: "sys \<Rightarrow> Context \<Rightarrow> Options \<Rightarrow> string list \<Rightarrow> BuildHook list \<Rightarrow> trace
    \<Rightarrow> unit result \<times> trace" where
  "runHook_loop sy ctx opts buildEnv [] tr = (Ok (), tr)"
| "runHook_loop sy ctx opts buildEnv (hook # hooks) tr =
     (case runHook_body sy ctx opts buildEnv hook tr of
        (Ok u, tr1) \<Rightarrow> runHook_loop sy ctx opts buildEnv hooks tr1
      | (Err err, tr1) \<Rightarrow> (Err err, tr1)
      | (Panic p, tr1) \<Rightarrow> (Panic p, tr1))"

definition runHook :: "sys \<Rightarrow> Context \<Rightarrow> Options \<Rightarrow> string list \<Rightarrow> BuildHook list \<Rightarrow> trace
    \<Rightarrow> unit result \<times> trace" where
  "runHook sy ctx opts buildEnv hooks tr =
     (if length hooks = 0 then (Ok (), tr)
      else runHook_loop sy ctx opts buildEnv hooks tr)"

subsection \<open>The builder call and the option resolver\<close>

definition doBuild :: "sys \<Rightarrow> Context \<Rightarrow> Build \<Rightarrow> Options \<Rightarrow> trace \<Rightarrow> unit result \<times> trace" where
  "doBuild sy ctx build opts tr =
     (builders_Build sy (Lang build) tr ctx build opts,
      tr @ [BuilderBuild (Lang build) build opts])"

text \<open>Go's indexing: out of range panics.\<close>

definition index :: "'a list \<Rightarrow> nat \<Rightarrow> 'a result" where
  "index xs i = (if i < length xs then Ok (xs ! i) else Panic ''index out of range'')"

text \<open>The \<open>goos\<close> and \<open>goarch\<close> of \<open>buildOptionsForTarget\<close>.\<close>

definition buildOptionsForTarget_goos_goarch :: "string \<Rightarrow> (string \<times> string) result" where
  "buildOptionsForTarget_goos_goarch target =
     (if strings_Contains target ''_'' then
        (case index (strings_Split target (CHR ''_'')) 0 of
           Ok goos \<Rightarrow>
             (case index (strings_Split target (CHR ''_'')) 1 of
                Ok goarch \<Rightarrow> Ok (goos, goarch)
              | Err err \<Rightarrow> Err err
              | Panic p \<Rightarrow> Panic p)
         | Err err \<Rightarrow> Err err
         | Panic p \<Rightarrow> Panic p)
      else Ok ('''', ''''))"

definition buildOptionsForTarget :: "sys \<Rightarrow> Context \<Rightarrow> Build \<Rightarrow> string \<Rightarrow> trace
    \<Rightarrow> Options result \<times> trace" where
  "buildOptionsForTarget sy ctx build target tr =
     (let ext = extFor target (Flags build) in
      case buildOptionsForTarget_goos_goarch target of
        Err err \<Rightarrow> (Err err, tr)
      | Panic p \<Rightarrow> (Panic p, tr)
      | Ok (goos, goarch) \<Rightarrow>
          let buildOpts = \<lparr>Target = target, Ext = ext, Os = goos, Arch = goarch,
                           Name = '''', Path = ''''\<rparr>
          in (case tmpl_Apply sy (WithBuildOptions (tmpl_New ctx) buildOpts) (Binary build) of
                Inl err \<Rightarrow> (Err err, tr)
              | Inr binary \<Rightarrow>
                  let name = binary @ ext in
                  (case filepath_Abs sy
                          (filepath_Join sy
                             [Dist (Config ctx), ID build @ ''_'' @ target, name]) of
                     Inl err \<Rightarrow> (Err err, tr)
                   | Inr path \<Rightarrow>
                       (Ok (buildOpts\<lparr>Name := name, Path := path\<rparr>),
                        tr @ [Log Info [(''binary'', FStr path)] ''building'']))))"

subsection \<open>The module proxy\<close>

definition proxy_mod_template :: string where
  "proxy_mod_template =
     [CHR 0x0A] @ ''module {{ .ProjectName }}'' @ [CHR 0x0A, CHR 0x0A] @
     ''require {{ .Proxy }} {{ .Version }}'' @ [CHR 0x0A, CHR 0x0A]"

definition proxy_main_template :: string where
  "proxy_main_template =
     [CHR 0x0A] @ ''// +build main'' @ [CHR 0x0A] @ ''package main'' @ [CHR 0x0A, CHR 0x0A] @
     ''import _ '' @ [CHR 0x22] @ ''{{ .Proxy }}'' @ [CHR 0x22, CHR 0x0A]"

text \<open>\<open>fmt.Errorf("failed to proxy module: %w", err)\<close>.\<close>

definition proxy_failed :: "error \<Rightarrow> error" where
  "proxy_failed err = Errorf ''failed to proxy module: %w'' [W err]"

text \<open>
  \<open>proxy\<close> returns the build and an error, as the source does. The permission bits are
  \<open>0o755 = 493\<close> and \<open>0o650 = 424\<close>.
\<close>

definition proxy :: "sys \<Rightarrow> Context \<Rightarrow> Build \<Rightarrow> trace \<Rightarrow> (Build \<times> error option) \<times> trace" where
  "proxy sy ctx build tr =
     (if \<not> IsProxied sy build then ((build, None), tr)
      else
        let template = tmpl_New ctx in
        (case tmpl_Apply sy template (Proxy_Path (Proxy build)) of
           Inl err \<Rightarrow> ((build, Some (proxy_failed err)), tr)
         | Inr proxy' \<Rightarrow>
        (case tmpl_Apply sy template (Proxy_Version (Proxy build)) of
           Inl err \<Rightarrow> ((build, Some (proxy_failed err)), tr)
         | Inr version \<Rightarrow>
        let tr1 = tr @ [Log Info [(''id'', FStr (ID build))]
                          (''proxying '' @ proxy' @ ''@'' @ version)];
            template = WithExtraFields template [(''Proxy'', proxy'), (''Version'', version)]
        in
        (case tmpl_Apply sy template proxy_mod_template of
           Inl err \<Rightarrow> ((build, Some (proxy_failed err)), tr1)
         | Inr gomod \<Rightarrow>
        (case tmpl_Apply sy template proxy_main_template of
           Inl err \<Rightarrow> ((build, Some (proxy_failed err)), tr1)
         | Inr main \<Rightarrow>
        let dir = Dist (Config ctx) @ ''/build_'' @ ID build;
            tr2 = tr1 @ [Log Debug [(''id'', FStr (ID build))] ''creating needed files''];
            tr3 = tr2 @ [Mkdir dir 493]
        in
        (case os_Mkdir sy tr2 dir 493 of
           Some err \<Rightarrow> ((build, Some (proxy_failed err)), tr3)
         | None \<Rightarrow>
        let tr4 = tr3 @ [WriteFile (dir @ ''/main.go'') main 424] in
        (case os_WriteFile sy tr3 (dir @ ''/main.go'') main 424 of
           Some err \<Rightarrow> ((build, Some (proxy_failed err)), tr4)
         | None \<Rightarrow>
        let tr5 = tr4 @ [WriteFile (dir @ ''/go.mod'') gomod 424] in
        (case os_WriteFile sy tr4 (dir @ ''/go.mod'') gomod 424 of
           Some err \<Rightarrow> ((build, Some (proxy_failed err)), tr5)
         | None \<Rightarrow>
        let tr6 = tr5 @ [OpenFile ''go.sum'' O_RDONLY 424] in
        (case os_OpenFile sy tr5 ''go.sum'' O_RDONLY 424 of
           Some err \<Rightarrow> ((build, Some (proxy_failed err)), tr6)
         | None \<Rightarrow>
        let tr7 = tr6 @ [OpenFile (dir @ ''/go.sum'') O_CREATE_TRUNC_RDWR 424] in
        (case os_OpenFile sy tr6 (dir @ ''/go.sum'') O_CREATE_TRUNC_RDWR 424 of
           Some err \<Rightarrow> ((build, Some (proxy_failed err)), tr7)
         | None \<Rightarrow>
        let tr8 = tr7 @ [Copy (dir @ ''/go.sum'') ''go.sum''] in
        (case io_Copy sy tr7 (dir @ ''/go.sum'') ''go.sum'' of
           Some err \<Rightarrow> ((build, Some (proxy_failed err)), tr8)
         | None \<Rightarrow>
        let tr9 = tr8 @ [Log Debug [(''id'', FStr (ID build))] ''tidying''];
            tr10 = tr9 @ [Exec dir [''go'', ''mod'', ''tidy''] None]
        in
        (case exec_Run sy tr9 dir [''go'', ''mod'', ''tidy''] None of
           (out, Some err) \<Rightarrow>
             ((build, Some (Errorf ''failed to proxy module: %w: %s'' [W err, S out])), tr10)
         | (out, None) \<Rightarrow>
             ((build\<lparr>Main := proxy', Dir := dir\<rparr>, None), tr10)))))))))))))"

subsection \<open>The task group\<close>

text \<open>
  Modelled from the spec: the task group \<open>semerrgroup\<close> (\<open>New\<close>, \<open>Go\<close>, \<open>Wait\<close>), whose
  package internal/semerrgroup is not among the sources. The spec: the group collects
  a list of per-task results and joins all tasks before returning; if any task fails,
  the aggregate result fails, carrying every task's error (not only the first), and a
  failing task does not cancel its siblings. The tasks are run here one after another
  in the order they were handed over, which is one of the schedules a group of any size
  allows; a task that panics ends the program.
\<close>

type_synonym task = "trace \<Rightarrow> unit result \<times> trace"

record group =
  group_size :: int
  group_tasks :: "task list"

definition semerrgroup_New :: "int \<Rightarrow> group" where
  "semerrgroup_New n = \<lparr>group_size = n, group_tasks = []\<rparr>"

definition semerrgroup_Go :: "group \<Rightarrow> task \<Rightarrow> group" where
  "semerrgroup_Go g fn = g\<lparr>group_tasks := group_tasks g @ [fn]\<rparr>"

fun semerrgroup_run :: "task list \<Rightarrow> error list \<Rightarrow> trace \<Rightarrow> error list result \<times> trace" where
  "semerrgroup_run [] errs tr = (Ok errs, tr)"
| "semerrgroup_run (fn # fns) errs tr =
     (case fn tr of
        (Ok u, tr1) \<Rightarrow> semerrgroup_run fns errs tr1
      | (Err err, tr1) \<Rightarrow> semerrgroup_run fns (errs @ [err]) tr1
      | (Panic p, tr1) \<Rightarrow> (Panic p, tr1))"

definition semerrgroup_Wait :: "group \<Rightarrow> trace \<Rightarrow> unit result \<times> trace" where
  "semerrgroup_Wait g tr =
     (case semerrgroup_run (group_tasks g) [] tr of
        (Ok errs, tr1) \<Rightarrow> (if errs = [] then (Ok (), tr1) else (Err (Aggregate errs), tr1))
      | (Err err, tr1) \<Rightarrow> (Err err, tr1)
      | (Panic p, tr1) \<Rightarrow> (Panic p, tr1))"

subsection \<open>Running one build\<close>

text \<open>The function \<open>runPipeOnBuild\<close> hands to the group for one target.\<close>

definition runPipeOnBuild_task :: "sys \<Rightarrow> Context \<Rightarrow> Build \<Rightarrow> string \<Rightarrow> task" where
  "runPipeOnBuild_task sy ctx build target tr =
     (case buildOptionsForTarget sy ctx build target tr of
        (Err err, tr1) \<Rightarrow> (Err err, tr1)
      | (Panic p, tr1) \<Rightarrow> (Panic p, tr1)
      | (Ok opts, tr1) \<Rightarrow>
          (case runHook sy ctx opts (Env build) (Pre (Hooks build)) tr1 of
             (Err err, tr2) \<Rightarrow> (Err (Errorf ''pre hook failed: %w'' [W err]), tr2)
           | (Panic p, tr2) \<Rightarrow> (Panic p, tr2)
           | (Ok u, tr2) \<Rightarrow>
               (case doBuild sy ctx build opts tr2 of
                  (Err err, tr3) \<Rightarrow> (Err err, tr3)
                | (Panic p, tr3) \<Rightarrow> (Panic p, tr3)
                | (Ok u, tr3) \<Rightarrow>
                    if \<not> SkipPostBuildHooks ctx then
                      (case runHook sy ctx opts (Env build) (Post (Hooks build)) tr3 of
                         (Err err, tr4) \<Rightarrow> (Err (Errorf ''post hook failed: %w'' [W err]), tr4)
                       | (Panic p, tr4) \<Rightarrow> (Panic p, tr4)
                       | (Ok u, tr4) \<Rightarrow> (Ok (), tr4))
                    else (Ok (), tr3))))"

definition runPipeOnBuild :: "sys \<Rightarrow> Context \<Rightarrow> Build \<Rightarrow> trace \<Rightarrow> unit result \<times> trace" where
  "runPipeOnBuild sy ctx build tr =
     (case proxy sy ctx build tr of
        ((build1, Some err), tr1) \<Rightarrow> (Err err, tr1)
      | ((build1, None), tr1) \<Rightarrow>
          semerrgroup_Wait
            (foldl (\<lambda>g target. semerrgroup_Go g (runPipeOnBuild_task sy ctx build1 target))
               (semerrgroup_New (Parallelism ctx)) (Targets build1))
            tr1)"

subsection \<open>Running the pipe\<close>

fun Run_loop :: "sys \<Rightarrow> Context \<Rightarrow> Build list \<Rightarrow> trace \<Rightarrow> unit result \<times> trace" where
  "Run_loop sy ctx [] tr = (Ok (), tr)"
| "Run_loop sy ctx (build # builds) tr =
     (if Skip build then
        Run_loop sy ctx builds (tr @ [Log Info [(''id'', FStr (ID build))] ''skip is set''])
      else
        (case runPipeOnBuild sy ctx build
                (tr @ [Log Debug [(''build'', FBuild build)] ''building'']) of
           (Ok u, tr1) \<Rightarrow> Run_loop sy ctx builds tr1
         | (Err err, tr1) \<Rightarrow> (Err err, tr1)
         | (Panic p, tr1) \<Rightarrow> (Panic p, tr1)))"

definition Run :: "sys \<Rightarrow> Context \<Rightarrow> trace \<Rightarrow> unit result \<times> trace" where
  "Run sy ctx tr = Run_loop sy ctx (Builds (Config ctx)) tr"

subsection \<open>Defaulting\<close>

text \<open>
  Modelled from the spec: the identifier registry \<open>ids\<close> (\<open>New\<close>, \<open>Inc\<close>, \<open>Validate\<close>), whose
  package internal/ids is not among the sources. The spec: the registry tracks the
  assigned build IDs, and validation signals an error if, after processing all
  definitions, any two share an ID. It is a table of how often each ID was counted.
\<close>

record ids =
  ids_kind :: string
  ids_count :: "(string \<times> nat) list"

definition ids_New :: "string \<Rightarrow> ids" where
  "ids_New kind = \<lparr>ids_kind = kind, ids_count = []\<rparr>"

fun ids_bump :: "(string \<times> nat) list \<Rightarrow> string \<Rightarrow> (string \<times> nat) list" where
  "ids_bump [] id' = [(id', 1)]"
| "ids_bump ((k, n) # kns) id' =
     (if k = id' then (k, Suc n) # kns else (k, n) # ids_bump kns id')"

definition ids_Inc :: "ids \<Rightarrow> string \<Rightarrow> ids" where
  "ids_Inc i id' = i\<lparr>ids_count := ids_bump (ids_count i) id'\<rparr>"

definition ids_Validate :: "ids \<Rightarrow> error option" where
  "ids_Validate i =
     (case find (\<lambda>(k, n). 1 < n) (ids_count i) of
        None \<Rightarrow> None
      | Some (k, n) \<Rightarrow> Some (DuplicateID (ids_kind i) k n))"

definition buildWithDefaults :: "sys \<Rightarrow> Context \<Rightarrow> Build \<Rightarrow> Build result" where
  "buildWithDefaults sy ctx build =
     (let build1 = (if Lang build = '''' then build\<lparr>Lang := ''go''\<rparr> else build);
          build2 = (if Binary build1 = '''' then build1\<lparr>Binary := ProjectName (Config ctx)\<rparr>
                    else build1);
          build3 = (if ID build2 = '''' then build2\<lparr>ID := ProjectName (Config ctx)\<rparr>
                    else build2);
          build4 = build3\<lparr>Env := map (os_ExpandEnv sy) (Env build3)\<rparr>
      in builders_WithDefaults sy (Lang build4) build4)"

text \<open>
  \<open>buildWithDefaults\<close> writes the expanded entries through its copy of the slice \<open>Env\<close>
  into the array the caller's build shares, so the caller's build has them too, also
  when the call fails.
\<close>

definition Env_written :: "sys \<Rightarrow> Build \<Rightarrow> Build" where
  "Env_written sy build = build\<lparr>Env := map (os_ExpandEnv sy) (Env build)\<rparr>"

text \<open>The loop of \<open>Default\<close>: the registry, and the builds as the loop leaves them.\<close>

fun Default_loop :: "sys \<Rightarrow> Context \<Rightarrow> Build list \<Rightarrow> ids \<Rightarrow> ids result \<times> Build list" where
  "Default_loop sy ctx [] i = (Ok i, [])"
| "Default_loop sy ctx (build # builds) i =
     (case buildWithDefaults sy ctx build of
        Err err \<Rightarrow> (Err err, Env_written sy build # builds)
      | Panic p \<Rightarrow> (Panic p, Env_written sy build # builds)
      | Ok build1 \<Rightarrow>
          (case Default_loop sy ctx builds (ids_Inc i (ID build1)) of
             (r, builds1) \<Rightarrow> (r, build1 # builds1)))"

definition Default :: "sys \<Rightarrow> Context \<Rightarrow> unit result \<times> Context" where
  "Default sy ctx =
     (case Default_loop sy ctx (Builds (Config ctx)) (ids_New ''builds'') of
        (Err err, builds1) \<Rightarrow> (Err err, ctx\<lparr>Config := (Config ctx)\<lparr>Builds := builds1\<rparr>\<rparr>)
      | (Panic p, builds1) \<Rightarrow> (Panic p, ctx\<lparr>Config := (Config ctx)\<lparr>Builds := builds1\<rparr>\<rparr>)
      | (Ok i, builds1) \<Rightarrow>
          let ctx1 = ctx\<lparr>Config := (Config ctx)\<lparr>Builds := builds1\<rparr>\<rparr> in
          if length (Builds (Config ctx1)) = 0 then
            let ctx2 = ctx1\<lparr>Config := (Config ctx1)
                         \<lparr>SingleBuild := Env_written sy (SingleBuild (Config ctx1))\<rparr>\<rparr>
            in (case buildWithDefaults sy ctx1 (SingleBuild (Config ctx1)) of
                  Err err \<Rightarrow> (Err err, ctx2)
                | Panic p \<Rightarrow> (Panic p, ctx2)
                | Ok build \<Rightarrow>
                    (case ids_Validate i of
                       None \<Rightarrow> (Ok (), ctx2\<lparr>Config := (Config ctx2)\<lparr>Builds := [build]\<rparr>\<rparr>)
                     | Some err \<Rightarrow>
                         (Err err, ctx2\<lparr>Config := (Config ctx2)\<lparr>Builds := [build]\<rparr>\<rparr>)))
          else
            (case ids_Validate i of
               None \<Rightarrow> (Ok (), ctx1)
             | Some err \<Rightarrow> (Err err, ctx1)))"

subsection \<open>Notions the properties are stated with\<close>

text \<open>
  The value a subprocess sees for a key in an environment list of \<open>KEY=VALUE\<close> entries:
  of several entries with the same key the last one counts (as \<open>os/exec\<close> documents
  for \<open>Cmd.Env\<close>).
\<close>

fun env_lookup :: "string list \<Rightarrow> string \<Rightarrow> string option" where
  "env_lookup [] key = None"
| "env_lookup (e # es) key =
     (case env_lookup es key of
        Some v \<Rightarrow> Some v
      | None \<Rightarrow>
          if CHR ''='' \<in> set e \<and> takeWhile (\<lambda>c. c \<noteq> CHR ''='') e = key
          then Some (tl (dropWhile (\<lambda>c. c \<noteq> CHR ''='') e))
          else None)"

text \<open>
  An event is the subprocess of a hook: its directory and its command line are the
  hook's, expanded and split into words, and its environment is set from the
  context's entries, then the build's, then the hook's own expanded entries.
\<close>

definition hook_exec :: "sys \<Rightarrow> Context \<Rightarrow> Options \<Rightarrow> string list \<Rightarrow> BuildHook \<Rightarrow> event \<Rightarrow> bool" where
  "hook_exec sy ctx opts buildEnv hook ev =
     (\<exists>es sh dir command.
        list_all2 (\<lambda>raw e. tmpl_Apply sy (WithBuildOptions (tmpl_New ctx) opts) raw = Inr e)
          (Hook_Env hook) es \<and>
        tmpl_Apply sy (WithBuildOptions (tmpl_New ctx) opts) (Hook_Dir hook) = Inr dir \<and>
        tmpl_Apply sy (WithEnvS (WithBuildOptions (tmpl_New ctx) opts)
            (EnvStrings ctx @ buildEnv @ es)) (Hook_Cmd hook) = Inr sh \<and>
        shellwords_Parse sy sh = Inr command \<and>
        ev = Exec dir command (cmd_Env (EnvStrings ctx @ buildEnv @ es)))"

text \<open>
  The events of a proxy construction that runs to its end, for the expanded path,
  version, manifest and entry point; and what it means that every step of the
  construction succeeds: the four templates expand to these, and each file operation
  and the tidy answer without error at the point of the trace where \<open>proxy\<close> calls them.
\<close>

definition proxy_events :: "Context \<Rightarrow> Build \<Rightarrow> string \<Rightarrow> string \<Rightarrow> string \<Rightarrow> string \<Rightarrow> event list" where
  "proxy_events ctx build proxy' version gomod main =
     (let dir = Dist (Config ctx) @ ''/build_'' @ ID build in
      [Log Info [(''id'', FStr (ID build))] (''proxying '' @ proxy' @ ''@'' @ version),
       Log Debug [(''id'', FStr (ID build))] ''creating needed files'',
       Mkdir dir 493,
       WriteFile (dir @ ''/main.go'') main 424,
       WriteFile (dir @ ''/go.mod'') gomod 424,
       OpenFile ''go.sum'' O_RDONLY 424,
       OpenFile (dir @ ''/go.sum'') O_CREATE_TRUNC_RDWR 424,
       Copy (dir @ ''/go.sum'') ''go.sum'',
       Log Debug [(''id'', FStr (ID build))] ''tidying'',
       Exec dir [''go'', ''mod'', ''tidy''] None])"

definition proxy_steps_ok :: "sys \<Rightarrow> Context \<Rightarrow> Build \<Rightarrow> trace \<Rightarrow> string \<Rightarrow> string \<Rightarrow> string \<Rightarrow> string \<Rightarrow> bool" where
  "proxy_steps_ok sy ctx build tr proxy' version gomod main =
     (let dir = Dist (Config ctx) @ ''/build_'' @ ID build;
          evs = proxy_events ctx build proxy' version gomod main;
          template = WithExtraFields (tmpl_New ctx) [(''Proxy'', proxy'), (''Version'', version)]
      in tmpl_Apply sy (tmpl_New ctx) (Proxy_Path (Proxy build)) = Inr proxy' \<and>
         tmpl_Apply sy (tmpl_New ctx) (Proxy_Version (Proxy build)) = Inr version \<and>
         tmpl_Apply sy template proxy_mod_template = Inr gomod \<and>
         tmpl_Apply sy template proxy_main_template = Inr main \<and>
         os_Mkdir sy (tr @ take 2 evs) dir 493 = None \<and>
         os_WriteFile sy (tr @ take 3 evs) (dir @ ''/main.go'') main 424 = None \<and>
         os_WriteFile sy (tr @ take 4 evs) (dir @ ''/go.mod'') gomod 424 = None \<and>
         os_OpenFile sy (tr @ take 5 evs) ''go.sum'' O_RDONLY 424 = None \<and>
         os_OpenFile sy (tr @ take 6 evs) (dir @ ''/go.sum'') O_CREATE_TRUNC_RDWR 424 = None \<and>
         io_Copy sy (tr @ take 7 evs) (dir @ ''/go.sum'') ''go.sum'' = None \<and>
         snd (exec_Run sy (tr @ take 9 evs) dir [''go'', ''mod'', ''tidy''] None) = None)"

text \<open>
  What each of a list of tasks returns when they run one after another, each to its
  end, whatever the others return, with the trace they leave; and the errors among
  such results, in order.
\<close>

fun run_each :: "task list \<Rightarrow> trace \<Rightarrow> unit result list \<times> trace" where
  "run_each [] tr = ([], tr)"
| "run_each (fn # fns) tr =
     (case fn tr of
        (r, tr1) \<Rightarrow> (case run_each fns tr1 of (rs, tr2) \<Rightarrow> (r # rs, tr2)))"

fun errors_of :: "unit result list \<Rightarrow> error list" where
  "errors_of [] = []"
| "errors_of (Err err # rs) = err # errors_of rs"
| "errors_of (r # rs) = errors_of rs"

subsection \<open>A concrete system, for evaluating the pipe\<close>

text \<open>
  Collaborators that always succeed: templates without placeholders expand to
  themselves, the environment has no variables to expand, every file operation and
  subprocess succeeds, a command line is one word, and a build is proxied when its
  proxy path is set.
\<close>

definition sys0 :: sys where
  "sys0 =
     \<lparr>tmpl_Apply = (\<lambda>t s. Inr s),
      os_ExpandEnv = (\<lambda>s. s),
      builders_WithDefaults = (\<lambda>lang build. Ok build),
      builders_Build = (\<lambda>lang tr ctx build opts. Ok ()),
      IsProxied = (\<lambda>build. Proxy_Path (Proxy build) \<noteq> ''''),
      os_Mkdir = (\<lambda>tr dir perm. None),
      os_WriteFile = (\<lambda>tr name content perm. None),
      os_OpenFile = (\<lambda>tr name mode perm. None),
      io_Copy = (\<lambda>tr dst src. None),
      exec_Run = (\<lambda>tr dir command env. ('''', None)),
      shellwords_Parse = (\<lambda>s. Inr [s]),
      filepath_Join = (\<lambda>elems. foldr (\<lambda>e p. if p = [] then e else e @ ''/'' @ p) elems []),
      filepath_Abs = (\<lambda>p. Inr (''/work/'' @ p))\<rparr>"

definition build0 :: Build where
  "build0 =
     \<lparr>ID = ''app'', Lang = ''go'', Binary = ''app'', Env = [], Targets = [''linux_amd64''],
      Flags = [], Hooks = \<lparr>Pre = [], Post = []\<rparr>,
      Proxy = \<lparr>Proxy_Path = '''', Proxy_Version = ''''\<rparr>,
      Main = ''.'', Dir = ''.'', Skip = False\<rparr>"

definition ctx0 :: Context where
  "ctx0 =
     \<lparr>Config = \<lparr>ProjectName = ''app'', Dist = ''dist'', Builds = [build0],
                SingleBuild = build0\<rparr>,
      EnvStrings = [''HOME=/root''], Parallelism = 4, SkipPostBuildHooks = False\<rparr>"

text \<open>The same, but the command \<open>false\<close> exits with status 1 after printing \<open>boom\<close>.\<close>

definition sys1 :: sys where
  "sys1 = sys0\<lparr>exec_Run := (\<lambda>tr dir command env.
      if command = [''false''] then (''boom'', Some (External ''exit status 1''))
      else ('''', None))\<rparr>"

definition hook_true :: BuildHook where
  "hook_true = \<lparr>Hook_Dir = '''', Hook_Cmd = ''true'', Hook_Env = [''STAGE=hook'']\<rparr>"

definition hook_false :: BuildHook where
  "hook_false = \<lparr>Hook_Dir = '''', Hook_Cmd = ''false'', Hook_Env = []\<rparr>"

definition opts0 :: Options where
  "opts0 = \<lparr>Target = ''linux_amd64'', Ext = '''', Os = ''linux'', Arch = ''amd64'',
         Name = ''app'', Path = ''/work/dist/app_linux_amd64/app''\<rparr>"

text \<open>A build whose second pre hook fails, and one whose second post hook fails.\<close>

definition build1 :: Build where
  "build1 = build0\<lparr>Env := [''CGO_ENABLED=0''],
     Hooks := \<lparr>Pre = [hook_true, hook_false, hook_true], Post = []\<rparr>\<rparr>"

definition build2 :: Build where
  "build2 = build0\<lparr>Env := [''CGO_ENABLED=0''],
     Hooks := \<lparr>Pre = [], Post = [hook_true, hook_false, hook_true]\<rparr>\<rparr>"

text \<open>The same as \<open>sys0\<close>, but \<open>go mod tidy\<close> fails; and a proxied build.\<close>

definition sys2 :: sys where
  "sys2 = sys0\<lparr>exec_Run := (\<lambda>tr dir command env.
      if command = [''go'', ''mod'', ''tidy'']
      then (''go: finding module'', Some (External ''exit status 1''))
      else ('''', None))\<rparr>"

definition build3 :: Build where
  "build3 = build0\<lparr>Proxy :=
     \<lparr>Proxy_Path = ''golang.org/x/tools'', Proxy_Version = ''v0.1.0''\<rparr>\<rparr>"

text \<open>
  The same as \<open>sys0\<close>, in a process environment where the variable \<open>A\<close> has the value
  \<open>$B\<close> and \<open>B\<close> has the value \<open>x\<close>: what \<open>os.ExpandEnv\<close> makes of the two entries
  \<open>V=$A\<close> and \<open>V=$B\<close>.
\<close>

definition sys3 :: sys where
  "sys3 = sys0\<lparr>os_ExpandEnv := (\<lambda>s.
      if s = ''V=$A'' then ''V=$B'' else if s = ''V=$B'' then ''V=x'' else s)\<rparr>"

text \<open>The same as \<open>sys0\<close>, but the builder fails for Windows; and a build for three
  targets, the first and the last of them Windows.\<close>

definition sys4 :: sys where
  "sys4 = sys0\<lparr>builders_Build := (\<lambda>lang tr ctx build opts.
      if Os opts = ''windows'' then Err (External (''no compiler for '' @ Target opts))
      else Ok ())\<rparr>"

definition build4 :: Build where
  "build4 = build0\<lparr>Targets := [''windows_amd64'', ''linux_amd64'', ''windows_arm64'']\<rparr>"

section \<open>Properties\<close>

subsection \<open>Strings\<close>

lemma strings_HasPrefix_single:
  "strings_HasPrefix s [x] = (case s of [] \<Rightarrow> False | c # cs \<Rightarrow> c = x)"
  by (cases s) auto

lemma strings_Contains_single: "strings_Contains s [x] = (x \<in> set s)"
  by (induction s) (auto simp: strings_HasPrefix_single)

lemma strings_Split_not_Nil: "strings_Split s sep \<noteq> []"
  by (induction s) (auto split: list.splits)

lemma strings_Split_Cons:
  "strings_Split s sep =
     takeWhile (\<lambda>c. c \<noteq> sep) s #
       (if sep \<in> set s then strings_Split (tl (dropWhile (\<lambda>c. c \<noteq> sep) s)) sep else [])"
  by (induction s) (auto split: list.splits simp: strings_Split_not_Nil)

lemma takeWhile_sep: "x \<notin> set os \<Longrightarrow> takeWhile (\<lambda>c. c \<noteq> x) (os @ x # rest) = os"
  by (induction os) auto

lemma dropWhile_sep:
  "x \<notin> set os \<Longrightarrow> dropWhile (\<lambda>c. c \<noteq> x) (os @ x # rest) = x # rest"
  by (induction os) auto

lemma takeWhile_all: "x \<notin> set arch \<Longrightarrow> takeWhile (\<lambda>c. c \<noteq> x) arch = arch"
  by (induction arch) auto

subsection \<open>The extension policy\<close>

lemma extFor_flags_exe:
  "''-buildmode=c-shared'' \<notin> set flags \<Longrightarrow> ''-buildmode=c-archive'' \<notin> set flags \<Longrightarrow>
   extFor_flags flags = ''.exe''"
  by (induction flags) auto

lemma extFor_flags_dll:
  "''-buildmode=c-archive'' \<notin> set before \<Longrightarrow>
   extFor_flags (before @ ''-buildmode=c-shared'' # rest) = ''.dll''"
  by (induction before) auto

lemma extFor_flags_lib:
  "''-buildmode=c-shared'' \<notin> set before \<Longrightarrow>
   extFor_flags (before @ ''-buildmode=c-archive'' # rest) = ''.lib''"
  by (induction before) auto

text \<open>
  C3, as the code has it. A Windows target is one whose identifier contains
  \<open>windows\<close>. For a Windows target the extension is \<open>.exe\<close> when neither
  \<open>-buildmode=c-shared\<close> nor \<open>-buildmode=c-archive\<close> is among the flags, \<open>.dll\<close> when
  \<open>-buildmode=c-shared\<close> is among the flags with no \<open>-buildmode=c-archive\<close> before it,
  and \<open>.lib\<close> when \<open>-buildmode=c-archive\<close> is among the flags with no
  \<open>-buildmode=c-shared\<close> before it: the first of the two flags decides. The extension
  is \<open>.wasm\<close> for the target \<open>js_wasm\<close> and empty for every other target.
\<close>

theorem extFor_policy:
  "(strings_Contains target ''windows'' \<and> ''-buildmode=c-shared'' \<notin> set flags \<and>
      ''-buildmode=c-archive'' \<notin> set flags \<longrightarrow> extFor target flags = ''.exe'') \<and>
   (strings_Contains target ''windows'' \<and> flags = before @ ''-buildmode=c-shared'' # rest \<and>
      ''-buildmode=c-archive'' \<notin> set before \<longrightarrow> extFor target flags = ''.dll'') \<and>
   (strings_Contains target ''windows'' \<and> flags = before' @ ''-buildmode=c-archive'' # rest' \<and>
      ''-buildmode=c-shared'' \<notin> set before' \<longrightarrow> extFor target flags = ''.lib'') \<and>
   (target = ''js_wasm'' \<longrightarrow> extFor target flags = ''.wasm'') \<and>
   (\<not> strings_Contains target ''windows'' \<and> target \<noteq> ''js_wasm'' \<longrightarrow>
      extFor target flags = '''')"
  by (simp add: extFor_def extFor_flags_exe extFor_flags_dll extFor_flags_lib)

text \<open>The table of the spec, each line from \<open>extFor_policy\<close>.\<close>

theorem extFor_policy_witness:
  "extFor ''windows_amd64'' [] = ''.exe'' \<and>
   extFor ''windows_amd64'' [''-buildmode=c-shared''] = ''.dll'' \<and>
   extFor ''windows_amd64'' [''-buildmode=c-archive''] = ''.lib'' \<and>
   extFor ''js_wasm'' [] = ''.wasm'' \<and>
   extFor ''linux_amd64'' [] = ''''"
  using extFor_policy [of "''windows_amd64''" "[]"]
    extFor_policy [of "''windows_amd64''" "[''-buildmode=c-shared'']" "[]" "[]"]
    extFor_policy [of "''windows_amd64''" "[''-buildmode=c-archive'']" _ _ "[]" "[]"]
    extFor_policy [of "''js_wasm''" "[]"]
    extFor_policy [of "''linux_amd64''" "[]"]
  by simp

text \<open>
  C3 as stated fails where both flags are given: \<open>-buildmode=c-shared\<close> is among the
  flags of a Windows target, and the extension is \<open>.lib\<close>, not \<open>.dll\<close>.
\<close>

theorem extFor_counterexample:
  "strings_Contains ''windows_amd64'' ''windows'' \<and>
   ''-buildmode=c-shared'' \<in> set [''-buildmode=c-archive'', ''-buildmode=c-shared''] \<and>
   extFor ''windows_amd64'' [''-buildmode=c-archive'', ''-buildmode=c-shared''] = ''.lib''"
  by (simp add: extFor_def)

subsection \<open>The option resolver\<close>

lemma goos_goarch:
  "buildOptionsForTarget_goos_goarch target =
     (if CHR ''_'' \<in> set target
      then Ok (takeWhile (\<lambda>c. c \<noteq> CHR ''_'') target,
               takeWhile (\<lambda>c. c \<noteq> CHR ''_'') (tl (dropWhile (\<lambda>c. c \<noteq> CHR ''_'') target)))
      else Ok ('''', ''''))"
proof (cases "CHR ''_'' \<in> set target")
  case True
  let ?r = "tl (dropWhile (\<lambda>c. c \<noteq> CHR ''_'') target)"
  have a: "strings_Split target (CHR ''_'') =
      takeWhile (\<lambda>c. c \<noteq> CHR ''_'') target # strings_Split ?r (CHR ''_'')"
    using True by (subst strings_Split_Cons) simp
  obtain xs where b: "strings_Split ?r (CHR ''_'') = takeWhile (\<lambda>c. c \<noteq> CHR ''_'') ?r # xs"
    using strings_Split_Cons [of ?r "CHR ''_''"] by blast
  show ?thesis
    using True
    by (simp add: buildOptionsForTarget_goos_goarch_def strings_Contains_single index_def a b)
next
  case False
  then show ?thesis
    by (simp add: buildOptionsForTarget_goos_goarch_def strings_Contains_single)
qed

lemma buildOptionsForTarget_Ok:
  assumes "buildOptionsForTarget sy ctx build target tr = (Ok opts, tr')"
  shows "buildOptionsForTarget_goos_goarch target = Ok (Os opts, Arch opts)"
  using assms
  by (auto simp: buildOptionsForTarget_def Let_def split: result.splits sum.splits prod.splits)

text \<open>The two indexings of the split target are in range: the resolver never panics.\<close>

lemma buildOptionsForTarget_no_panic:
  "fst (buildOptionsForTarget sy ctx build target tr) \<noteq> Panic p"
  by (auto simp: buildOptionsForTarget_def Let_def goos_goarch
      split: result.splits sum.splits prod.splits)

lemma buildOptionsForTarget_linux_amd64:
  "buildOptionsForTarget sys0 ctx0 build0 ''linux_amd64'' [] =
    (Ok \<lparr>Target = ''linux_amd64'', Ext = '''', Os = ''linux'', Arch = ''amd64'',
         Name = ''app'', Path = ''/work/dist/app_linux_amd64/app''\<rparr>,
     [Log Info [(''binary'', FStr ''/work/dist/app_linux_amd64/app'')] ''building''])"
  by (simp add: buildOptionsForTarget_def Let_def goos_goarch extFor_def sys0_def build0_def
      ctx0_def tmpl_New_def WithBuildOptions_def)

lemma buildOptionsForTarget_custom:
  "buildOptionsForTarget sys0 ctx0 build0 ''custom'' [] =
    (Ok \<lparr>Target = ''custom'', Ext = '''', Os = '''', Arch = '''',
         Name = ''app'', Path = ''/work/dist/app_custom/app''\<rparr>,
     [Log Info [(''binary'', FStr ''/work/dist/app_custom/app'')] ''building''])"
  by (simp add: buildOptionsForTarget_def Let_def goos_goarch extFor_def sys0_def build0_def
      ctx0_def tmpl_New_def WithBuildOptions_def)

text \<open>
  C2, as the code has it. When the resolver returns options for a target that has an
  underscore, \<open>Os\<close> is the part before the first underscore and \<open>Arch\<close> is the part
  between the first underscore and the second one, which is all that follows the first
  underscore when there is no second one. For a target without an underscore both are
  empty.
\<close>

theorem buildOptionsForTarget_Os_Arch:
  assumes "buildOptionsForTarget sy ctx build target tr = (Ok opts, tr')"
  shows "(target = os @ ''_'' @ rest \<and> CHR ''_'' \<notin> set os \<longrightarrow>
            Os opts = os \<and> Arch opts = takeWhile (\<lambda>c. c \<noteq> CHR ''_'') rest) \<and>
         (target = os @ ''_'' @ arch \<and> CHR ''_'' \<notin> set os \<and> CHR ''_'' \<notin> set arch \<longrightarrow>
            Os opts = os \<and> Arch opts = arch) \<and>
         (CHR ''_'' \<notin> set target \<longrightarrow> Os opts = '''' \<and> Arch opts = '''')"
  using buildOptionsForTarget_Ok [OF assms]
  by (auto simp: goos_goarch takeWhile_sep dropWhile_sep takeWhile_all split: if_splits)

theorem buildOptionsForTarget_Os_Arch_witness:
  "buildOptionsForTarget sys0 ctx0 build0 ''linux_amd64'' [] =
    (Ok \<lparr>Target = ''linux_amd64'', Ext = '''', Os = ''linux'', Arch = ''amd64'',
         Name = ''app'', Path = ''/work/dist/app_linux_amd64/app''\<rparr>,
     [Log Info [(''binary'', FStr ''/work/dist/app_linux_amd64/app'')] ''building'']) \<and>
   ''linux_amd64'' = ''linux'' @ ''_'' @ ''amd64'' \<and>
   CHR ''_'' \<notin> set ''linux'' \<and> CHR ''_'' \<notin> set ''amd64'' \<and>
   buildOptionsForTarget sys0 ctx0 build0 ''custom'' [] =
    (Ok \<lparr>Target = ''custom'', Ext = '''', Os = '''', Arch = '''',
         Name = ''app'', Path = ''/work/dist/app_custom/app''\<rparr>,
     [Log Info [(''binary'', FStr ''/work/dist/app_custom/app'')] ''building'']) \<and>
   CHR ''_'' \<notin> set ''custom''"
  using buildOptionsForTarget_Os_Arch [OF buildOptionsForTarget_linux_amd64,
      where os = "''linux''" and rest = "''amd64''" and arch = "''amd64''"]
    buildOptionsForTarget_Os_Arch [OF buildOptionsForTarget_custom]
    buildOptionsForTarget_linux_amd64 buildOptionsForTarget_custom
  by simp

text \<open>
  C2 as stated fails for a target with two underscores: \<open>linux_arm_6\<close> is \<open>linux\<close>, an
  underscore and \<open>arm_6\<close>, and the resolver's \<open>Arch\<close> is \<open>arm\<close>.
\<close>

theorem buildOptionsForTarget_Os_Arch_counterexample:
  "''linux_arm_6'' = ''linux'' @ ''_'' @ ''arm_6'' \<and>
   fst (buildOptionsForTarget sys0 ctx0 build0 ''linux_arm_6'' []) =
     Ok \<lparr>Target = ''linux_arm_6'', Ext = '''', Os = ''linux'', Arch = ''arm'',
         Name = ''app'', Path = ''/work/dist/app_linux_arm_6/app''\<rparr>"
  by (simp add: buildOptionsForTarget_def Let_def goos_goarch extFor_def sys0_def build0_def
      ctx0_def tmpl_New_def WithBuildOptions_def)

subsection \<open>Evaluating the pipe on the concrete system\<close>

lemmas concrete_defs = sys0_def sys1_def build0_def ctx0_def hook_true_def hook_false_def opts0_def

lemmas pipe_defs = cmd_Env_def Run_def runPipeOnBuild_def proxy_def semerrgroup_Wait_def semerrgroup_Go_def
  semerrgroup_New_def runPipeOnBuild_task_def buildOptionsForTarget_def goos_goarch extFor_def
  runHook_def runHook_body_def run_def doBuild_def tmpl_New_def WithBuildOptions_def WithEnvS_def
  WithExtraFields_def Let_def

lemma Run_build0:
  "Dist (Config ctx) = ''dist'' \<Longrightarrow>
   Run_loop sys0 ctx [build0] tr =
     (Ok (), tr @
       [Log Debug [(''build'', FBuild build0)] ''building'',
        Log Info [(''binary'', FStr ''/work/dist/app_linux_amd64/app'')] ''building'',
        BuilderBuild ''go'' build0 opts0])"
  by (simp add: pipe_defs concrete_defs)

lemma runHook_body_true:
  "EnvStrings ctx = [''HOME=/root''] \<Longrightarrow>
   runHook_body sys1 ctx opts0 buildEnv hook_true tr =
     (Ok (), tr @
       [Log Info [(''hook'', FStr ''true'')] ''running hook'',
        Log Debug [(''cmd'', FStrs [''true'']),
                   (''env'', FStrs (''HOME=/root'' # buildEnv @ [''STAGE=hook'']))] ''running'',
        Exec '''' [''true''] (Some (''HOME=/root'' # buildEnv @ [''STAGE=hook'']))])"
  by (simp add: pipe_defs concrete_defs)


lemma runHook_true:
  "EnvStrings ctx = [''HOME=/root''] \<Longrightarrow>
   runHook sys1 ctx opts0 buildEnv [hook_true] tr =
     (Ok (), tr @
       [Log Info [(''hook'', FStr ''true'')] ''running hook'',
        Log Debug [(''cmd'', FStrs [''true'']),
                   (''env'', FStrs (''HOME=/root'' # buildEnv @ [''STAGE=hook'']))] ''running'',
        Exec '''' [''true''] (Some (''HOME=/root'' # buildEnv @ [''STAGE=hook'']))])"
  by (simp add: runHook_def runHook_body_true)

lemma buildOptionsForTarget_sys1:
  "Dist (Config ctx) = ''dist'' \<Longrightarrow>
   ID build = ''app'' \<Longrightarrow> Binary build = ''app'' \<Longrightarrow> Flags build = [] \<Longrightarrow>
   buildOptionsForTarget sys1 ctx build ''linux_amd64'' tr =
    (Ok opts0, tr @ [Log Info [(''binary'', FStr ''/work/dist/app_linux_amd64/app'')] ''building''])"
  by (simp add: pipe_defs concrete_defs)

lemma doBuild_sys1:
  "doBuild sys1 ctx build opts tr = (Ok (), tr @ [BuilderBuild (Lang build) build opts])"
  by (simp add: doBuild_def sys1_def sys0_def)

subsection \<open>Skipped builds\<close>

lemma Run_loop_append:
  "Run_loop sy ctx before tr = (Ok u, tr1) \<Longrightarrow>
   Run_loop sy ctx (before @ rest) tr = Run_loop sy ctx rest tr1"
  by (induction before arbitrary: tr) (auto split: prod.splits result.splits if_splits)

text \<open>
  C5. When the pipe comes to a build whose \<open>Skip\<close> is set (the builds before it having
  run without error), all it does for that build is to log \<open>skip is set\<close> with the
  build's ID, and it goes on with the remaining builds from there: no proxying, no
  task, no call of a builder on its behalf, and no error.
\<close>

theorem Run_skips:
  assumes "Skip build"
    and "Builds (Config ctx) = before @ build # rest"
    and "Run_loop sy ctx before tr = (Ok (), tr1)"
  shows "Run sy ctx tr =
           Run_loop sy ctx rest (tr1 @ [Log Info [(''id'', FStr (ID build))] ''skip is set''])"
  using assms by (simp add: Run_def Run_loop_append)

theorem Run_skips_witness:
  "Skip (build0\<lparr>Skip := True\<rparr>) \<and>
   Builds (Config (ctx0\<lparr>Config := (Config ctx0)
       \<lparr>Builds := [build0, build0\<lparr>Skip := True\<rparr>, build0]\<rparr>\<rparr>)) =
     [build0] @ build0\<lparr>Skip := True\<rparr> # [build0] \<and>
   Run sys0 (ctx0\<lparr>Config := (Config ctx0)
       \<lparr>Builds := [build0, build0\<lparr>Skip := True\<rparr>, build0]\<rparr>\<rparr>) [] =
     (Ok (),
       [Log Debug [(''build'', FBuild build0)] ''building'',
        Log Info [(''binary'', FStr ''/work/dist/app_linux_amd64/app'')] ''building'',
        BuilderBuild ''go'' build0 opts0,
        Log Info [(''id'', FStr ''app'')] ''skip is set'',
        Log Debug [(''build'', FBuild build0)] ''building'',
        Log Info [(''binary'', FStr ''/work/dist/app_linux_amd64/app'')] ''building'',
        BuilderBuild ''go'' build0 opts0])"
proof -
  let ?ctx = "ctx0\<lparr>Config := (Config ctx0)
       \<lparr>Builds := [build0, build0\<lparr>Skip := True\<rparr>, build0]\<rparr>\<rparr>"
  have dist: "Dist (Config ?ctx) = ''dist''"
    by (simp add: ctx0_def)
  have skip: "Skip (build0\<lparr>Skip := True\<rparr>)"
    by simp
  have builds: "Builds (Config ?ctx) = [build0] @ build0\<lparr>Skip := True\<rparr> # [build0]"
    by simp
  have id: "ID (build0\<lparr>Skip := True\<rparr>) = ''app''"
    by (simp add: build0_def)
  show ?thesis
    using Run_skips [OF skip builds Run_build0 [OF dist, of "[]"]]
    by (simp add: Run_build0 [OF dist] id del: Run_loop.simps)
qed

subsection \<open>Hooks\<close>

lemma runHook_loop_append:
  "runHook_loop sy ctx opts buildEnv before tr = (Ok u, tr1) \<Longrightarrow>
   runHook_loop sy ctx opts buildEnv (before @ rest) tr =
   runHook_loop sy ctx opts buildEnv rest tr1"
  by (induction before arbitrary: tr) (auto split: prod.splits result.splits)

lemma runHook_is_loop:
  "runHook sy ctx opts buildEnv hooks tr = runHook_loop sy ctx opts buildEnv hooks tr"
  by (cases hooks) (simp_all add: runHook_def)




subsection \<open>The environment of a hook\<close>

lemma env_lookup_append:
  "env_lookup (a @ b) key =
     (case env_lookup b key of Some v \<Rightarrow> Some v | None \<Rightarrow> env_lookup a key)"
  by (induction a) (auto split: option.splits)

lemma runHook_env_layers:
  "runHook_env sy t raws env = Inr env' \<Longrightarrow>
   \<exists>es. env' = env @ es \<and> list_all2 (\<lambda>raw e. tmpl_Apply sy t raw = Inr e) raws es"
proof (induction raws arbitrary: env)
  case Nil
  then show ?case by simp
next
  case (Cons raw raws)
  from Cons.prems obtain e where e: "tmpl_Apply sy t raw = Inr e"
    and rest: "runHook_env sy t raws (env @ [e]) = Inr env'"
    by (auto split: sum.splits)
  from Cons.IH [OF rest] obtain es where "env' = (env @ [e]) @ es"
    and "list_all2 (\<lambda>raw e. tmpl_Apply sy t raw = Inr e) raws es"
    by blast
  with e have "env' = env @ (e # es) \<and>
      list_all2 (\<lambda>raw e. tmpl_Apply sy t raw = Inr e) (raw # raws) (e # es)"
    by simp
  then show ?case by blast
qed

lemma runHook_env_expands:
  "list_all2 (\<lambda>raw e. tmpl_Apply sy t raw = Inr e) raws es \<Longrightarrow>
   runHook_env sy t raws env = Inr (env @ es)"
  by (induction raws es arbitrary: env rule: list_all2_induct) simp_all

lemma run_events:
  "run sy ctx dir command env tr = (r, tr') \<Longrightarrow>
   \<exists>new. tr' = tr @ new \<and>
     (\<forall>d c e. Exec d c e \<in> set new \<longrightarrow> d = dir \<and> c = command \<and> e = cmd_Env env)"
  by (auto simp: run_def Let_def split: if_splits prod.splits option.splits)

lemma run_dir:
  "run sy ctx dir command env tr =
     (if command = [] then (Panic ''index out of range [0] with length 0'', tr)
      else
        (case exec_Run sy
                (tr @ [Log Debug [(''cmd'', FStrs command), (''env'', FStrs env)] ''running''])
                dir command (cmd_Env env) of
           (b, None) \<Rightarrow>
             (Ok (),
              tr @ [Log Debug [(''cmd'', FStrs command), (''env'', FStrs env)] ''running'',
                    Exec dir command (cmd_Env env)])
         | (b, Some err) \<Rightarrow>
             (Err (Errorf ''%q: %w'' [Q b, W err]),
              tr @ [Log Debug [(''cmd'', FStrs command), (''env'', FStrs env)] ''running'',
                    Exec dir command (cmd_Env env),
                    Log Debug [(''cmd'', FStrs command), (''error'', FErr err)] ''failed''])))"
proof -
  have d: "(if dir \<noteq> [] then dir else []) = dir"
    by simp
  show ?thesis
    unfolding run_def Let_def d by simp
qed

text \<open>A command line that is not empty is started, with this directory and environment.\<close>

lemma run_starts:
  assumes "command \<noteq> []"
  shows "\<exists>r post. run sy ctx dir command env tr =
     (r, tr @ [Log Debug [(''cmd'', FStrs command), (''env'', FStrs env)] ''running'',
               Exec dir command (cmd_Env env)] @ post)"
proof (cases "exec_Run sy
    (tr @ [Log Debug [(''cmd'', FStrs command), (''env'', FStrs env)] ''running''])
    dir command (cmd_Env env)")
  case (Pair b e)
  show ?thesis
  proof (cases e)
    case None
    with Pair assms have "run sy ctx dir command env tr =
        (Ok (), tr @ [Log Debug [(''cmd'', FStrs command), (''env'', FStrs env)] ''running'',
               Exec dir command (cmd_Env env)] @ [])"
      by (simp add: run_dir)
    then show ?thesis by blast
  next
    case (Some err)
    with Pair assms have "run sy ctx dir command env tr =
        (Err (Errorf ''%q: %w'' [Q b, W err]),
         tr @ [Log Debug [(''cmd'', FStrs command), (''env'', FStrs env)] ''running'',
               Exec dir command (cmd_Env env)] @
           [Log Debug [(''cmd'', FStrs command), (''error'', FErr err)] ''failed''])"
      by (simp add: run_dir)
    then show ?thesis by blast
  qed
qed

lemma runHook_body_events:
  assumes "runHook_body sy ctx opts buildEnv hook tr = (r, tr')"
  shows "\<exists>new. tr' = tr @ new \<and>
     (\<forall>d c e. Exec d c e \<in> set new \<longrightarrow> hook_exec sy ctx opts buildEnv hook (Exec d c e))"
proof (cases "runHook_env sy (WithBuildOptions (tmpl_New ctx) opts) (Hook_Env hook)
             ([] @ EnvStrings ctx @ buildEnv)")
  case (Inl err)
  with assms show ?thesis by (simp add: runHook_body_def)
next
  case (Inr env)
  from runHook_env_layers [OF Inr] obtain es where env: "env = EnvStrings ctx @ buildEnv @ es"
    and es: "list_all2 (\<lambda>raw e. tmpl_Apply sy (WithBuildOptions (tmpl_New ctx) opts) raw = Inr e)
          (Hook_Env hook) es"
    by auto
  show ?thesis
  proof (cases "tmpl_Apply sy (WithBuildOptions (tmpl_New ctx) opts) (Hook_Dir hook)")
    case (Inl err)
    with assms Inr show ?thesis by (simp add: runHook_body_def)
  next
    case dir: (Inr dir)
    show ?thesis
    proof (cases "tmpl_Apply sy (WithEnvS (WithBuildOptions (tmpl_New ctx) opts) env)
        (Hook_Cmd hook)")
      case (Inl err)
      with assms Inr dir show ?thesis by (simp add: runHook_body_def)
    next
      case sh: (Inr sh)
      show ?thesis
      proof (cases "shellwords_Parse sy sh")
        case (Inl err)
        with assms Inr dir sh
        have "tr' = tr @ [Log Info [(''hook'', FStr sh)] ''running hook'']"
          by (auto simp: runHook_body_def Let_def)
        then show ?thesis by auto
      next
        case cmd: (Inr command)
        let ?tr1 = "tr @ [Log Info [(''hook'', FStr sh)] ''running hook'']"
        from assms Inr dir sh cmd have "run sy ctx dir command env ?tr1 = (r, tr')"
          by (simp add: runHook_body_def Let_def)
        from run_events [OF this] obtain new where new: "tr' = ?tr1 @ new"
          and ex: "\<forall>d c e. Exec d c e \<in> set new \<longrightarrow> d = dir \<and> c = command \<and> e = cmd_Env env"
          by blast
        have "tr' = tr @ (Log Info [(''hook'', FStr sh)] ''running hook'' # new)"
          using new by simp
        moreover have "\<forall>d c e.
            Exec d c e \<in> set (Log Info [(''hook'', FStr sh)] ''running hook'' # new)
            \<longrightarrow> hook_exec sy ctx opts buildEnv hook (Exec d c e)"
          using ex es dir sh cmd unfolding hook_exec_def env by auto
        ultimately show ?thesis by blast
      qed
    qed
  qed
qed

text \<open>A hook whose entries, directory and command line expand, and whose command line
  has a word, gets its subprocess.\<close>

lemma runHook_body_starts:
  assumes "list_all2 (\<lambda>raw e. tmpl_Apply sy (WithBuildOptions (tmpl_New ctx) opts) raw = Inr e)
          (Hook_Env hook) es"
    and "tmpl_Apply sy (WithBuildOptions (tmpl_New ctx) opts) (Hook_Dir hook) = Inr dir"
    and "tmpl_Apply sy (WithEnvS (WithBuildOptions (tmpl_New ctx) opts)
            (EnvStrings ctx @ buildEnv @ es)) (Hook_Cmd hook) = Inr sh"
    and "shellwords_Parse sy sh = Inr command"
    and "command \<noteq> []"
  shows "\<exists>r post. runHook_body sy ctx opts buildEnv hook tr =
     (r, tr @ [Log Info [(''hook'', FStr sh)] ''running hook'',
               Log Debug [(''cmd'', FStrs command),
                          (''env'', FStrs (EnvStrings ctx @ buildEnv @ es))] ''running'',
               Exec dir command (cmd_Env (EnvStrings ctx @ buildEnv @ es))] @ post)"
proof -
  let ?env = "EnvStrings ctx @ buildEnv @ es"
  let ?tr1 = "tr @ [Log Info [(''hook'', FStr sh)] ''running hook'']"
  have env: "runHook_env sy (WithBuildOptions (tmpl_New ctx) opts) (Hook_Env hook)
      (EnvStrings ctx @ buildEnv) = Inr ?env"
    using runHook_env_expands [OF assms(1), of "EnvStrings ctx @ buildEnv"] by simp
  have body: "runHook_body sy ctx opts buildEnv hook tr = run sy ctx dir command ?env ?tr1"
    by (simp add: runHook_body_def env assms(2) assms(3) assms(4) Let_def)
  from run_starts [OF assms(5), of sy ctx dir ?env ?tr1] obtain r post where
    "run sy ctx dir command ?env ?tr1 =
       (r, ?tr1 @ [Log Debug [(''cmd'', FStrs command), (''env'', FStrs ?env)] ''running'',
                   Exec dir command (cmd_Env ?env)] @ post)"
    by blast
  with body have "runHook_body sy ctx opts buildEnv hook tr =
     (r, tr @ [Log Info [(''hook'', FStr sh)] ''running hook'',
               Log Debug [(''cmd'', FStrs command), (''env'', FStrs ?env)] ''running'',
               Exec dir command (cmd_Env ?env)] @ post)"
    by simp
  then show ?thesis by blast
qed

lemma runHook_loop_events:
  "runHook_loop sy ctx opts buildEnv hooks tr = (r, tr') \<Longrightarrow>
   \<exists>new. tr' = tr @ new \<and>
     (\<forall>d c e. Exec d c e \<in> set new \<longrightarrow>
        (\<exists>hook \<in> set hooks. hook_exec sy ctx opts buildEnv hook (Exec d c e)))"
proof (induction hooks arbitrary: tr)
  case Nil
  then show ?case by simp
next
  case (Cons hook hooks)
  obtain r1 tr1 where b: "runHook_body sy ctx opts buildEnv hook tr = (r1, tr1)"
    by (cases "runHook_body sy ctx opts buildEnv hook tr")
  from runHook_body_events [OF b] obtain new1 where n1: "tr1 = tr @ new1"
    and e1: "\<forall>d c e. Exec d c e \<in> set new1 \<longrightarrow> hook_exec sy ctx opts buildEnv hook (Exec d c e)"
    by blast
  show ?case
  proof (cases r1)
    case (Ok u)
    with Cons.prems b have "runHook_loop sy ctx opts buildEnv hooks tr1 = (r, tr')"
      by simp
    from Cons.IH [OF this] obtain new2 where n2: "tr' = tr1 @ new2"
      and e2: "\<forall>d c e. Exec d c e \<in> set new2 \<longrightarrow>
        (\<exists>hook \<in> set hooks. hook_exec sy ctx opts buildEnv hook (Exec d c e))"
      by blast
    have "tr' = tr @ (new1 @ new2)"
      using n1 n2 by simp
    moreover have "\<forall>d c e. Exec d c e \<in> set (new1 @ new2) \<longrightarrow>
        (\<exists>h \<in> set (hook # hooks). hook_exec sy ctx opts buildEnv h (Exec d c e))"
      using e1 e2 by auto
    ultimately show ?thesis by blast
  next
    case (Err err)
    with Cons.prems b have "tr' = tr1" by simp
    with n1 e1 show ?thesis by auto
  next
    case (Panic p)
    with Cons.prems b have "tr' = tr1" by simp
    with n1 e1 show ?thesis by auto
  qed
qed

text \<open>The hooks from a hook on: the trace goes on with the subprocess of that hook.\<close>

lemma runHook_loop_starts:
  assumes "runHook_loop sy ctx opts buildEnv (hook # rest) tr1 = (r, tr')"
    and "list_all2 (\<lambda>raw e. tmpl_Apply sy (WithBuildOptions (tmpl_New ctx) opts) raw = Inr e)
          (Hook_Env hook) es"
    and "tmpl_Apply sy (WithBuildOptions (tmpl_New ctx) opts) (Hook_Dir hook) = Inr dir"
    and "tmpl_Apply sy (WithEnvS (WithBuildOptions (tmpl_New ctx) opts)
            (EnvStrings ctx @ buildEnv @ es)) (Hook_Cmd hook) = Inr sh"
    and "shellwords_Parse sy sh = Inr command"
    and "command \<noteq> []"
  shows "\<exists>post. tr' =
      tr1 @ [Log Info [(''hook'', FStr sh)] ''running hook'',
             Log Debug [(''cmd'', FStrs command),
                        (''env'', FStrs (EnvStrings ctx @ buildEnv @ es))] ''running'',
             Exec dir command (cmd_Env (EnvStrings ctx @ buildEnv @ es))] @ post"
proof -
  let ?evs = "[Log Info [(''hook'', FStr sh)] ''running hook'',
             Log Debug [(''cmd'', FStrs command),
                        (''env'', FStrs (EnvStrings ctx @ buildEnv @ es))] ''running'',
             Exec dir command (cmd_Env (EnvStrings ctx @ buildEnv @ es))]"
  from runHook_body_starts [OF assms(2-6), where tr = tr1] obtain r1 post1 where
    b: "runHook_body sy ctx opts buildEnv hook tr1 = (r1, tr1 @ ?evs @ post1)"
    by blast
  show ?thesis
  proof (cases r1)
    case (Ok u)
    with assms(1) b
    have "runHook_loop sy ctx opts buildEnv rest (tr1 @ ?evs @ post1) = (r, tr')"
      by simp
    from runHook_loop_events [OF this] obtain new where "tr' = (tr1 @ ?evs @ post1) @ new"
      by blast
    then have "tr' = tr1 @ ?evs @ (post1 @ new)" by simp
    then show ?thesis by blast
  next
    case (Err err)
    with assms(1) b have "tr' = tr1 @ ?evs @ post1" by simp
    then show ?thesis by blast
  next
    case (Panic p)
    with assms(1) b have "tr' = tr1 @ ?evs @ post1" by simp
    then show ?thesis by blast
  qed
qed

text \<open>
  C7, as the code has it. Every subprocess the hook runner starts is that of one of its
  hooks, with the hook's expanded directory and command line, and its environment is
  set to the context's environment, then the build's, then the hook's own entries, each
  expanded, in this order, when this list has an entry; a key is then looked up in the
  hook's entries first, then in the build's, then in the context's. When the list has
  no entry, the environment of the subprocess is left unset, and it inherits that of
  the running process. And every hook that is reached without an earlier error, whose
  entries, directory and command line expand and whose command line has a word, gets
  this subprocess: the trace goes on with the hook's log entries and the subprocess.
\<close>

theorem runHook_env_layering:
  assumes "runHook sy ctx opts buildEnv hooks tr = (r, tr')"
  shows "(\<exists>new. tr' = tr @ new \<and>
     (\<forall>dir command env. Exec dir command env \<in> set new \<longrightarrow>
        (\<exists>hook \<in> set hooks. \<exists>es sh.
           list_all2 (\<lambda>raw e. tmpl_Apply sy (WithBuildOptions (tmpl_New ctx) opts) raw = Inr e)
             (Hook_Env hook) es \<and>
           tmpl_Apply sy (WithBuildOptions (tmpl_New ctx) opts) (Hook_Dir hook) = Inr dir \<and>
           tmpl_Apply sy (WithEnvS (WithBuildOptions (tmpl_New ctx) opts)
               (EnvStrings ctx @ buildEnv @ es)) (Hook_Cmd hook) = Inr sh \<and>
           shellwords_Parse sy sh = Inr command \<and>
           env = (if EnvStrings ctx @ buildEnv @ es = [] then None
                  else Some (EnvStrings ctx @ buildEnv @ es)) \<and>
           (\<forall>key. env_lookup (EnvStrings ctx @ buildEnv @ es) key =
              (case env_lookup es key of
                 Some v \<Rightarrow> Some v
               | None \<Rightarrow>
                   (case env_lookup buildEnv key of
                      Some v \<Rightarrow> Some v
                    | None \<Rightarrow> env_lookup (EnvStrings ctx) key)))))) \<and>
    (\<forall>before hook rest tr1 es dir sh command.
       hooks = before @ hook # rest \<and>
       runHook sy ctx opts buildEnv before tr = (Ok (), tr1) \<and>
       list_all2 (\<lambda>raw e. tmpl_Apply sy (WithBuildOptions (tmpl_New ctx) opts) raw = Inr e)
         (Hook_Env hook) es \<and>
       tmpl_Apply sy (WithBuildOptions (tmpl_New ctx) opts) (Hook_Dir hook) = Inr dir \<and>
       tmpl_Apply sy (WithEnvS (WithBuildOptions (tmpl_New ctx) opts)
           (EnvStrings ctx @ buildEnv @ es)) (Hook_Cmd hook) = Inr sh \<and>
       shellwords_Parse sy sh = Inr command \<and> command \<noteq> [] \<longrightarrow>
       (\<exists>post. tr' =
          tr1 @ [Log Info [(''hook'', FStr sh)] ''running hook'',
                 Log Debug [(''cmd'', FStrs command),
                            (''env'', FStrs (EnvStrings ctx @ buildEnv @ es))] ''running'',
                 Exec dir command
                   (if EnvStrings ctx @ buildEnv @ es = [] then None
                    else Some (EnvStrings ctx @ buildEnv @ es))] @ post))"
proof
  from assms have loop: "runHook_loop sy ctx opts buildEnv hooks tr = (r, tr')"
    by (simp add: runHook_is_loop)
  from runHook_loop_events [OF loop] obtain new where n: "tr' = tr @ new"
    and e: "\<forall>d c e. Exec d c e \<in> set new \<longrightarrow>
        (\<exists>hook \<in> set hooks. hook_exec sy ctx opts buildEnv hook (Exec d c e))"
    by blast
  have "\<forall>dir command env. Exec dir command env \<in> set new \<longrightarrow>
        (\<exists>hook \<in> set hooks. \<exists>es sh.
           list_all2 (\<lambda>raw e. tmpl_Apply sy (WithBuildOptions (tmpl_New ctx) opts) raw = Inr e)
             (Hook_Env hook) es \<and>
           tmpl_Apply sy (WithBuildOptions (tmpl_New ctx) opts) (Hook_Dir hook) = Inr dir \<and>
           tmpl_Apply sy (WithEnvS (WithBuildOptions (tmpl_New ctx) opts)
               (EnvStrings ctx @ buildEnv @ es)) (Hook_Cmd hook) = Inr sh \<and>
           shellwords_Parse sy sh = Inr command \<and>
           env = (if EnvStrings ctx @ buildEnv @ es = [] then None
                  else Some (EnvStrings ctx @ buildEnv @ es)) \<and>
           (\<forall>key. env_lookup (EnvStrings ctx @ buildEnv @ es) key =
              (case env_lookup es key of
                 Some v \<Rightarrow> Some v
               | None \<Rightarrow>
                   (case env_lookup buildEnv key of
                      Some v \<Rightarrow> Some v
                    | None \<Rightarrow> env_lookup (EnvStrings ctx) key))))"
  proof (intro allI impI)
    fix dir command env
    assume "Exec dir command env \<in> set new"
    with e obtain hook where h: "hook \<in> set hooks"
      and x: "hook_exec sy ctx opts buildEnv hook (Exec dir command env)"
      by blast
    from x obtain es sh where
      "list_all2 (\<lambda>raw e. tmpl_Apply sy (WithBuildOptions (tmpl_New ctx) opts) raw = Inr e)
             (Hook_Env hook) es"
      and "tmpl_Apply sy (WithBuildOptions (tmpl_New ctx) opts) (Hook_Dir hook) = Inr dir"
      and "tmpl_Apply sy (WithEnvS (WithBuildOptions (tmpl_New ctx) opts)
               (EnvStrings ctx @ buildEnv @ es)) (Hook_Cmd hook) = Inr sh"
      and "shellwords_Parse sy sh = Inr command"
      and "env = (if EnvStrings ctx @ buildEnv @ es = [] then None
                  else Some (EnvStrings ctx @ buildEnv @ es))"
      unfolding hook_exec_def cmd_Env_def by auto
    moreover have "\<forall>key. env_lookup (EnvStrings ctx @ buildEnv @ es) key =
              (case env_lookup es key of
                 Some v \<Rightarrow> Some v
               | None \<Rightarrow>
                   (case env_lookup buildEnv key of
                      Some v \<Rightarrow> Some v
                    | None \<Rightarrow> env_lookup (EnvStrings ctx) key))"
      by (auto simp: env_lookup_append split: option.splits)
    ultimately show "\<exists>hook \<in> set hooks. \<exists>es sh.
           list_all2 (\<lambda>raw e. tmpl_Apply sy (WithBuildOptions (tmpl_New ctx) opts) raw = Inr e)
             (Hook_Env hook) es \<and>
           tmpl_Apply sy (WithBuildOptions (tmpl_New ctx) opts) (Hook_Dir hook) = Inr dir \<and>
           tmpl_Apply sy (WithEnvS (WithBuildOptions (tmpl_New ctx) opts)
               (EnvStrings ctx @ buildEnv @ es)) (Hook_Cmd hook) = Inr sh \<and>
           shellwords_Parse sy sh = Inr command \<and>
           env = (if EnvStrings ctx @ buildEnv @ es = [] then None
                  else Some (EnvStrings ctx @ buildEnv @ es)) \<and>
           (\<forall>key. env_lookup (EnvStrings ctx @ buildEnv @ es) key =
              (case env_lookup es key of
                 Some v \<Rightarrow> Some v
               | None \<Rightarrow>
                   (case env_lookup buildEnv key of
                      Some v \<Rightarrow> Some v
                    | None \<Rightarrow> env_lookup (EnvStrings ctx) key)))"
      using h by blast
  qed
  with n show "\<exists>new. tr' = tr @ new \<and>
     (\<forall>dir command env. Exec dir command env \<in> set new \<longrightarrow>
        (\<exists>hook \<in> set hooks. \<exists>es sh.
           list_all2 (\<lambda>raw e. tmpl_Apply sy (WithBuildOptions (tmpl_New ctx) opts) raw = Inr e)
             (Hook_Env hook) es \<and>
           tmpl_Apply sy (WithBuildOptions (tmpl_New ctx) opts) (Hook_Dir hook) = Inr dir \<and>
           tmpl_Apply sy (WithEnvS (WithBuildOptions (tmpl_New ctx) opts)
               (EnvStrings ctx @ buildEnv @ es)) (Hook_Cmd hook) = Inr sh \<and>
           shellwords_Parse sy sh = Inr command \<and>
           env = (if EnvStrings ctx @ buildEnv @ es = [] then None
                  else Some (EnvStrings ctx @ buildEnv @ es)) \<and>
           (\<forall>key. env_lookup (EnvStrings ctx @ buildEnv @ es) key =
              (case env_lookup es key of
                 Some v \<Rightarrow> Some v
               | None \<Rightarrow>
                   (case env_lookup buildEnv key of
                      Some v \<Rightarrow> Some v
                    | None \<Rightarrow> env_lookup (EnvStrings ctx) key)))))"
    by blast
next
  from assms have loop: "runHook_loop sy ctx opts buildEnv hooks tr = (r, tr')"
    by (simp add: runHook_is_loop)
  show "\<forall>before hook rest tr1 es dir sh command.
       hooks = before @ hook # rest \<and>
       runHook sy ctx opts buildEnv before tr = (Ok (), tr1) \<and>
       list_all2 (\<lambda>raw e. tmpl_Apply sy (WithBuildOptions (tmpl_New ctx) opts) raw = Inr e)
         (Hook_Env hook) es \<and>
       tmpl_Apply sy (WithBuildOptions (tmpl_New ctx) opts) (Hook_Dir hook) = Inr dir \<and>
       tmpl_Apply sy (WithEnvS (WithBuildOptions (tmpl_New ctx) opts)
           (EnvStrings ctx @ buildEnv @ es)) (Hook_Cmd hook) = Inr sh \<and>
       shellwords_Parse sy sh = Inr command \<and> command \<noteq> [] \<longrightarrow>
       (\<exists>post. tr' =
          tr1 @ [Log Info [(''hook'', FStr sh)] ''running hook'',
                 Log Debug [(''cmd'', FStrs command),
                            (''env'', FStrs (EnvStrings ctx @ buildEnv @ es))] ''running'',
                 Exec dir command
                   (if EnvStrings ctx @ buildEnv @ es = [] then None
                    else Some (EnvStrings ctx @ buildEnv @ es))] @ post)"
  proof (intro allI impI, elim conjE)
    fix before hook rest tr1 es dir sh command
    assume hooks: "hooks = before @ hook # rest"
      and before: "runHook sy ctx opts buildEnv before tr = (Ok (), tr1)"
      and es: "list_all2
          (\<lambda>raw e. tmpl_Apply sy (WithBuildOptions (tmpl_New ctx) opts) raw = Inr e)
          (Hook_Env hook) es"
      and dir: "tmpl_Apply sy (WithBuildOptions (tmpl_New ctx) opts) (Hook_Dir hook) = Inr dir"
      and sh: "tmpl_Apply sy (WithEnvS (WithBuildOptions (tmpl_New ctx) opts)
           (EnvStrings ctx @ buildEnv @ es)) (Hook_Cmd hook) = Inr sh"
      and cmd: "shellwords_Parse sy sh = Inr command"
      and ne: "command \<noteq> []"
    from before have "runHook_loop sy ctx opts buildEnv before tr = (Ok (), tr1)"
      by (simp add: runHook_is_loop)
    from runHook_loop_append [OF this, of "hook # rest"] loop hooks
    have "runHook_loop sy ctx opts buildEnv (hook # rest) tr1 = (r, tr')"
      by simp
    from runHook_loop_starts [OF this es dir sh cmd ne]
    show "\<exists>post. tr' =
          tr1 @ [Log Info [(''hook'', FStr sh)] ''running hook'',
                 Log Debug [(''cmd'', FStrs command),
                            (''env'', FStrs (EnvStrings ctx @ buildEnv @ es))] ''running'',
                 Exec dir command
                   (if EnvStrings ctx @ buildEnv @ es = [] then None
                    else Some (EnvStrings ctx @ buildEnv @ es))] @ post"
      by (simp only: cmd_Env_def)
  qed
qed

text \<open>
  A hook that sets \<open>STAGE\<close>, run for a build that sets it too: the subprocess gets
  both entries, the build's before the hook's, and sees the hook's value.
\<close>

theorem runHook_env_layering_witness:
  "runHook sys1 ctx0 opts0 [''STAGE=build''] [hook_true] [] =
     (Ok (),
      [] @ [Log Info [(''hook'', FStr ''true'')] ''running hook'',
       Log Debug [(''cmd'', FStrs [''true'']),
                  (''env'', FStrs [''HOME=/root'', ''STAGE=build'', ''STAGE=hook''])] ''running'',
       Exec '''' [''true''] (Some [''HOME=/root'', ''STAGE=build'', ''STAGE=hook''])]) \<and>
   env_lookup [''HOME=/root'', ''STAGE=build'', ''STAGE=hook''] ''STAGE'' = Some ''hook'' \<and>
   env_lookup [''HOME=/root'', ''STAGE=build'', ''STAGE=hook''] ''HOME'' = Some ''/root''"
proof -
  let ?t = "WithBuildOptions (tmpl_New ctx0) opts0"
  have c: "EnvStrings ctx0 = [''HOME=/root'']"
    by (simp add: ctx0_def)
  have r: "runHook sys1 ctx0 opts0 [''STAGE=build''] [hook_true] [] =
     (Ok (),
      [] @ [Log Info [(''hook'', FStr ''true'')] ''running hook'',
       Log Debug [(''cmd'', FStrs [''true'']),
                  (''env'', FStrs [''HOME=/root'', ''STAGE=build'', ''STAGE=hook''])] ''running'',
       Exec '''' [''true''] (Some [''HOME=/root'', ''STAGE=build'', ''STAGE=hook''])])"
    using runHook_true [OF c, of "[''STAGE=build'']" "[]"] by simp
  have h: "[hook_true] = [] @ hook_true # []"
    by simp
  have b: "runHook sys1 ctx0 opts0 [''STAGE=build''] [] [] = (Ok (), [])"
    by (simp add: runHook_def)
  have es: "list_all2 (\<lambda>raw e. tmpl_Apply sys1 ?t raw = Inr e) (Hook_Env hook_true)
      [''STAGE=hook'']"
    by (simp add: hook_true_def sys1_def sys0_def)
  have dir: "tmpl_Apply sys1 ?t (Hook_Dir hook_true) = Inr ''''"
    by (simp add: hook_true_def sys1_def sys0_def)
  have sh: "tmpl_Apply sys1 (WithEnvS ?t (EnvStrings ctx0 @ [''STAGE=build''] @ [''STAGE=hook'']))
      (Hook_Cmd hook_true) = Inr ''true''"
    by (simp add: hook_true_def sys1_def sys0_def)
  have cmd: "shellwords_Parse sys1 ''true'' = Inr [''true'']"
    by (simp add: sys1_def sys0_def)
  note t = runHook_env_layering [OF r]
  from t [THEN conjunct2, rule_format, of "[]" hook_true "[]" "[]" "[''STAGE=hook'']" "''''"
      "''true''" "[''true'']"] h b es dir sh cmd
  obtain post where "[] @ [Log Info [(''hook'', FStr ''true'')] ''running hook'',
       Log Debug [(''cmd'', FStrs [''true'']),
                  (''env'', FStrs [''HOME=/root'', ''STAGE=build'', ''STAGE=hook''])] ''running'',
       Exec '''' [''true''] (Some [''HOME=/root'', ''STAGE=build'', ''STAGE=hook''])] =
     [] @ [Log Info [(''hook'', FStr ''true'')] ''running hook'',
       Log Debug [(''cmd'', FStrs [''true'']),
                  (''env'', FStrs (EnvStrings ctx0 @ [''STAGE=build''] @ [''STAGE=hook'']))]
         ''running'',
       Exec '''' [''true'']
         (if EnvStrings ctx0 @ [''STAGE=build''] @ [''STAGE=hook''] = [] then None
          else Some (EnvStrings ctx0 @ [''STAGE=build''] @ [''STAGE=hook'']))] @ post"
    by blast
  from t [THEN conjunct1] obtain es' where
    "Some [''HOME=/root'', ''STAGE=build'', ''STAGE=hook''] =
       (if EnvStrings ctx0 @ [''STAGE=build''] @ es' = [] then None
        else Some (EnvStrings ctx0 @ [''STAGE=build''] @ es'))"
    and k: "\<forall>key. env_lookup (EnvStrings ctx0 @ [''STAGE=build''] @ es') key =
              (case env_lookup es' key of
                 Some v \<Rightarrow> Some v
               | None \<Rightarrow>
                   (case env_lookup [''STAGE=build''] key of
                      Some v \<Rightarrow> Some v
                    | None \<Rightarrow> env_lookup (EnvStrings ctx0) key))"
    by fastforce
  then have es': "es' = [''STAGE=hook'']"
    by (simp add: c)
  from k [rule_format, of "''STAGE''"] k [rule_format, of "''HOME''"] r show ?thesis
    by (simp add: es' c)
qed

text \<open>
  C7 as stated fails where the context, the build and the hook have no entries: the
  list of the three is empty, and the subprocess is not given this empty environment
  but is left to inherit that of the running process.
\<close>

theorem runHook_env_layering_counterexample:
  "EnvStrings (ctx0\<lparr>EnvStrings := []\<rparr>) @ [] @ Hook_Env hook_false = [] \<and>
   runHook sys1 (ctx0\<lparr>EnvStrings := []\<rparr>) opts0 [] [hook_false] [] =
     (Err (Errorf ''%q: %w'' [Q ''boom'', W (External ''exit status 1'')]),
      [Log Info [(''hook'', FStr ''false'')] ''running hook'',
       Log Debug [(''cmd'', FStrs [''false'']), (''env'', FStrs [])] ''running'',
       Exec '''' [''false''] None,
       Log Debug [(''cmd'', FStrs [''false'']),
                  (''error'', FErr (External ''exit status 1''))] ''failed''])"
  by (simp add: pipe_defs concrete_defs)

subsection \<open>Skipping the post hooks\<close>

text \<open>
  C10. With \<open>SkipPostBuildHooks\<close> set, a target's task is the option resolution, the pre
  hooks and the builder call, with their errors as without the flag, and nothing after
  the builder call: no post hook is run, for any target of any build.
\<close>

theorem skip_post_hooks:
  assumes "SkipPostBuildHooks ctx"
  shows "runPipeOnBuild_task sy ctx build target tr =
     (case buildOptionsForTarget sy ctx build target tr of
        (Ok opts, tr1) \<Rightarrow>
          (case runHook sy ctx opts (Env build) (Pre (Hooks build)) tr1 of
             (Ok u, tr2) \<Rightarrow> doBuild sy ctx build opts tr2
           | (Err err, tr2) \<Rightarrow> (Err (Errorf ''pre hook failed: %w'' [W err]), tr2)
           | (Panic p, tr2) \<Rightarrow> (Panic p, tr2))
      | (Err err, tr1) \<Rightarrow> (Err err, tr1)
      | (Panic p, tr1) \<Rightarrow> (Panic p, tr1))"
  using assms
  by (auto simp: runPipeOnBuild_task_def split: prod.splits result.splits)

text \<open>The build whose second post hook would fail: with the flag set its task succeeds,
  and the trace ends with the builder call.\<close>

theorem skip_post_hooks_witness:
  "SkipPostBuildHooks (ctx0\<lparr>SkipPostBuildHooks := True\<rparr>) \<and>
   Post (Hooks build2) = [hook_true, hook_false, hook_true] \<and>
   runPipeOnBuild_task sys1 (ctx0\<lparr>SkipPostBuildHooks := True\<rparr>) build2 ''linux_amd64'' [] =
     (Ok (),
      [Log Info [(''binary'', FStr ''/work/dist/app_linux_amd64/app'')] ''building'',
       BuilderBuild ''go'' build2 opts0])"
proof -
  let ?ctx = "ctx0\<lparr>SkipPostBuildHooks := True\<rparr>"
  have s: "SkipPostBuildHooks ?ctx"
    by simp
  have o: "buildOptionsForTarget sys1 ?ctx build2 ''linux_amd64'' [] =
      (Ok opts0, [] @ [Log Info [(''binary'', FStr ''/work/dist/app_linux_amd64/app'')] ''building''])"
    by (rule buildOptionsForTarget_sys1) (simp_all add: ctx0_def build2_def build0_def)
  have q: "Pre (Hooks build2) = []" and l: "Lang build2 = ''go''"
    and p: "Post (Hooks build2) = [hook_true, hook_false, hook_true]"
    by (simp_all add: build2_def build0_def)
  show ?thesis
    using skip_post_hooks [OF s, of sys1 build2 "''linux_amd64''" "[]"]
    by (simp add: o q l p runHook_def doBuild_sys1)
qed

subsection \<open>The module proxy\<close>

lemma proxy_Some:
  assumes "proxy sy ctx build tr = ((build', Some err), tr')"
  shows "build' = build \<and>
     (\<exists>e. err = proxy_failed e \<or>
          (\<exists>out. err = Errorf ''failed to proxy module: %w: %s'' [W e, S out]))"
  using assms
  by (auto simp: proxy_def Let_def split: if_splits sum.splits option.splits prod.splits)

lemma proxy_None:
  assumes "proxy sy ctx build tr = ((build', None), tr')" and "IsProxied sy build"
  shows "\<exists>proxy' version gomod main.
     proxy_steps_ok sy ctx build tr proxy' version gomod main \<and>
     tr' = tr @ proxy_events ctx build proxy' version gomod main \<and>
     build' = build\<lparr>Main := proxy', Dir := Dist (Config ctx) @ ''/build_'' @ ID build\<rparr>"
  using assms
  by (auto simp: proxy_def proxy_steps_ok_def proxy_events_def Let_def
      split: if_splits sum.splits option.splits prod.splits)

lemma proxy_steps_ok_None:
  assumes "proxy_steps_ok sy ctx build tr proxy' version gomod main" and "IsProxied sy build"
  shows "proxy sy ctx build tr =
     ((build\<lparr>Main := proxy', Dir := Dist (Config ctx) @ ''/build_'' @ ID build\<rparr>, None),
      tr @ proxy_events ctx build proxy' version gomod main)"
  using assms
  by (cases "exec_Run sy (tr @ take 9 (proxy_events ctx build proxy' version gomod main))
        (Dist (Config ctx) @ ''/build_'' @ ID build) [''go'', ''mod'', ''tidy''] None")
     (simp add: proxy_def proxy_steps_ok_def proxy_events_def Let_def)

lemma proxy_sys0:
  "proxy sys0 ctx0 build3 [] =
     ((build3\<lparr>Main := ''golang.org/x/tools'', Dir := ''dist/build_app''\<rparr>, None),
      proxy_events ctx0 build3 ''golang.org/x/tools'' ''v0.1.0'' proxy_mod_template
        proxy_main_template)"
  by (simp add: proxy_def proxy_events_def Let_def sys0_def build3_def build0_def ctx0_def
      tmpl_New_def WithExtraFields_def)

lemma proxy_sys2:
  "proxy sys2 ctx0 build3 [] =
     ((build3, Some (Errorf ''failed to proxy module: %w: %s''
                 [W (External ''exit status 1''), S ''go: finding module''])),
      proxy_events ctx0 build3 ''golang.org/x/tools'' ''v0.1.0'' proxy_mod_template
        proxy_main_template)"
  by (simp add: proxy_def proxy_events_def Let_def sys2_def sys0_def build3_def build0_def
      ctx0_def tmpl_New_def WithExtraFields_def)

text \<open>
  C6. For a proxied build, \<open>proxy\<close> either returns an error or it does not. If it
  does, some step of the construction has failed, the build comes back as it was
  (\<open>Main\<close> and \<open>Dir\<close> with it), the error wraps the step's error as
  \<open>failed to proxy module\<close>, and \<open>runPipeOnBuild\<close> returns this error with the trace as
  \<open>proxy\<close> left it: no task is handed to the group. If it does not, every step has
  succeeded, and the build comes back with \<open>Main\<close> set to the expanded proxy path and
  \<open>Dir\<close> to the scratch directory, and is otherwise as it was.
\<close>

theorem proxy_all_or_nothing:
  assumes "IsProxied sy build" and "proxy sy ctx build tr = ((build', r), tr')"
  shows "(\<forall>err. r = Some err \<longrightarrow>
            build' = build \<and>
            (\<exists>e. err = proxy_failed e \<or>
               (\<exists>out. err = Errorf ''failed to proxy module: %w: %s'' [W e, S out])) \<and>
            runPipeOnBuild sy ctx build tr = (Err err, tr') \<and>
            (\<forall>proxy' version gomod main.
               \<not> proxy_steps_ok sy ctx build tr proxy' version gomod main)) \<and>
         (r = None \<longrightarrow>
            (\<exists>proxy' version gomod main.
               proxy_steps_ok sy ctx build tr proxy' version gomod main \<and>
               tr' = tr @ proxy_events ctx build proxy' version gomod main \<and>
               build' = build\<lparr>Main := proxy',
                               Dir := Dist (Config ctx) @ ''/build_'' @ ID build\<rparr>))"
proof (cases r)
  case None
  with proxy_None [of sy ctx build tr build' tr'] assms show ?thesis
    by simp
next
  case (Some err)
  with assms have p: "proxy sy ctx build tr = ((build', Some err), tr')"
    by simp
  have "\<not> proxy_steps_ok sy ctx build tr proxy' version gomod main"
    for proxy' version gomod main
    using proxy_steps_ok_None [of sy ctx build tr proxy' version gomod main] assms(1) p
    by auto
  moreover have "runPipeOnBuild sy ctx build tr = (Err err, tr')"
    using p by (simp add: runPipeOnBuild_def)
  ultimately show ?thesis
    using proxy_Some [OF p] Some by simp
qed

text \<open>
  The proxied build \<open>golang.org/x/tools\<close> at \<open>v0.1.0\<close>: where the tidy fails,
  \<open>runPipeOnBuild\<close> returns the wrapped error after the events of the proxy; where
  every step succeeds, \<open>Main\<close> and \<open>Dir\<close> are rewritten.
\<close>

theorem proxy_all_or_nothing_witness:
  "IsProxied sys2 build3 \<and>
   runPipeOnBuild sys2 ctx0 build3 [] =
     (Err (Errorf ''failed to proxy module: %w: %s''
            [W (External ''exit status 1''), S ''go: finding module'']),
      proxy_events ctx0 build3 ''golang.org/x/tools'' ''v0.1.0'' proxy_mod_template
        proxy_main_template) \<and>
   IsProxied sys0 build3 \<and>
   fst (proxy sys0 ctx0 build3 []) =
     (build3\<lparr>Main := ''golang.org/x/tools'', Dir := ''dist/build_app''\<rparr>, None) \<and>
   proxy_steps_ok sys0 ctx0 build3 [] ''golang.org/x/tools'' ''v0.1.0'' proxy_mod_template
        proxy_main_template"
proof -
  have i2: "IsProxied sys2 build3" and i0: "IsProxied sys0 build3"
    by (simp_all add: sys2_def sys0_def build3_def)
  have ok: "proxy_steps_ok sys0 ctx0 build3 [] ''golang.org/x/tools'' ''v0.1.0''
      proxy_mod_template proxy_main_template"
    by (simp add: proxy_steps_ok_def Let_def sys0_def build3_def build0_def ctx0_def
        tmpl_New_def WithExtraFields_def)
  show ?thesis
    using proxy_all_or_nothing [OF i2 proxy_sys2] proxy_all_or_nothing [OF i0 proxy_sys0]
      i2 i0 ok proxy_sys0
    by simp
qed

subsection \<open>Defaulting one build\<close>

lemma map_idem: "\<forall>e \<in> set xs. f (f e) = f e \<Longrightarrow> map f (map f xs) = map f xs"
  by (induction xs) auto

lemma Build_ID_same: "ID b = v \<Longrightarrow> b\<lparr>ID := v\<rparr> = b"
  by (cases b) simp

lemma Build_Binary_same: "Binary b = v \<Longrightarrow> b\<lparr>Binary := v\<rparr> = b"
  by (cases b) simp

lemma Build_Env_same: "Env b = w \<Longrightarrow> b\<lparr>Env := w\<rparr> = b"
  by (cases b) simp

lemma buildWithDefaults_fixed:
  assumes "Lang b \<noteq> ''''"
    and "Binary b = '''' \<longrightarrow> ProjectName (Config ctx) = ''''"
    and "ID b = '''' \<longrightarrow> ProjectName (Config ctx) = ''''"
    and "map (os_ExpandEnv sy) (Env b) = Env b"
  shows "buildWithDefaults sy ctx b = builders_WithDefaults sy (Lang b) b"
proof -
  have s1: "(if Lang b = '''' then b\<lparr>Lang := ''go''\<rparr> else b) = b"
    using assms(1) by simp
  have s2: "(if Binary b = '''' then b\<lparr>Binary := ProjectName (Config ctx)\<rparr> else b) = b"
    using assms(2) Build_Binary_same [of b "ProjectName (Config ctx)"] by (cases "Binary b = ''''") simp_all
  have s3: "(if ID b = '''' then b\<lparr>ID := ProjectName (Config ctx)\<rparr> else b) = b"
    using assms(3) Build_ID_same [of b "ProjectName (Config ctx)"] by (cases "ID b = ''''") simp_all
  have s4: "b\<lparr>Env := map (os_ExpandEnv sy) (Env b)\<rparr> = b"
    using Build_Env_same [OF assms(4) [symmetric]] .
  show ?thesis
    by (simp only: buildWithDefaults_def Let_def s1 s2 s3 s4)
qed

text \<open>
  C9, as the code has it. Applying \<open>buildWithDefaults\<close> to its own output gives that
  output again, provided that expanding an already expanded entry of the build's
  environment changes nothing, and that the language builder's \<open>WithDefaults\<close> leaves
  \<open>Lang\<close>, \<open>Binary\<close>, \<open>ID\<close> and \<open>Env\<close> as they are and returns its own output
  unchanged.
\<close>

theorem buildWithDefaults_idempotent:
  assumes "buildWithDefaults sy ctx build = Ok build'"
    and "\<forall>e \<in> set (Env build). os_ExpandEnv sy (os_ExpandEnv sy e) = os_ExpandEnv sy e"
    and "\<forall>lang b b'. builders_WithDefaults sy lang b = Ok b' \<longrightarrow>
           Lang b' = Lang b \<and> Binary b' = Binary b \<and> ID b' = ID b \<and> Env b' = Env b"
    and "\<forall>lang b b'. builders_WithDefaults sy lang b = Ok b' \<longrightarrow>
           builders_WithDefaults sy lang b' = Ok b'"
  shows "buildWithDefaults sy ctx build' = Ok build'"
proof -
  define b1 where "b1 = (if Lang build = '''' then build\<lparr>Lang := ''go''\<rparr> else build)"
  define b2 where "b2 = (if Binary b1 = '''' then b1\<lparr>Binary := ProjectName (Config ctx)\<rparr>
                         else b1)"
  define b3 where "b3 = (if ID b2 = '''' then b2\<lparr>ID := ProjectName (Config ctx)\<rparr> else b2)"
  define d where "d = b3\<lparr>Env := map (os_ExpandEnv sy) (Env b3)\<rparr>"
  have w: "builders_WithDefaults sy (Lang d) d = Ok build'"
    using assms(1) by (simp only: buildWithDefaults_def Let_def b1_def b2_def b3_def d_def)
  have env_b3: "Env b3 = Env build"
    by (simp add: b3_def b2_def b1_def)
  have lang_d: "Lang d \<noteq> ''''"
    by (simp add: d_def b3_def b2_def b1_def)
  have binary_d: "Binary d = '''' \<longrightarrow> ProjectName (Config ctx) = ''''"
    by (simp add: d_def b3_def b2_def b1_def)
  have id_d: "ID d = '''' \<longrightarrow> ProjectName (Config ctx) = ''''"
    by (simp add: d_def b3_def b2_def)
  have env_d: "map (os_ExpandEnv sy) (Env d) = Env d"
    using map_idem [OF assms(2)] by (simp add: d_def env_b3)
  from assms(3) [rule_format, OF w]
  have keep: "Lang build' = Lang d" "Binary build' = Binary d" "ID build' = ID d"
    "Env build' = Env d"
    by simp_all
  have "buildWithDefaults sy ctx build' = builders_WithDefaults sy (Lang build') build'"
  proof (rule buildWithDefaults_fixed)
    show "Lang build' \<noteq> []" using lang_d by (simp add: keep)
    show "Binary build' = [] \<longrightarrow> ProjectName (Config ctx) = []"
      using binary_d by (simp add: keep)
    show "ID build' = [] \<longrightarrow> ProjectName (Config ctx) = []"
      using id_d by (simp add: keep)
    show "map (os_ExpandEnv sy) (Env build') = Env build'"
      using env_d by (simp add: keep)
  qed
  also have "\<dots> = Ok build'"
    using assms(4) [rule_format, OF w] by (simp only: keep)
  finally show ?thesis .
qed


text \<open>The entry \<open>V=$B\<close> expands to \<open>V=x\<close>, which expands to itself.\<close>

theorem buildWithDefaults_idempotent_witness:
  "buildWithDefaults sys3 ctx0 (build0\<lparr>Lang := '''', ID := '''', Env := [''V=$B'']\<rparr>) =
     Ok (build0\<lparr>Env := [''V=x'']\<rparr>) \<and>
   buildWithDefaults sys3 ctx0 (build0\<lparr>Env := [''V=x'']\<rparr>) = Ok (build0\<lparr>Env := [''V=x'']\<rparr>)"
proof -
  have a: "buildWithDefaults sys3 ctx0 (build0\<lparr>Lang := '''', ID := '''', Env := [''V=$B'']\<rparr>) =
     Ok (build0\<lparr>Env := [''V=x'']\<rparr>)"
    by (simp add: buildWithDefaults_def Let_def sys3_def sys0_def build0_def ctx0_def)
  have b: "\<forall>e \<in> set (Env (build0\<lparr>Lang := '''', ID := '''', Env := [''V=$B'']\<rparr>)).
      os_ExpandEnv sys3 (os_ExpandEnv sys3 e) = os_ExpandEnv sys3 e"
    by (simp add: sys3_def)
  have c: "\<forall>lang b b'. builders_WithDefaults sys3 lang b = Ok b' \<longrightarrow>
           Lang b' = Lang b \<and> Binary b' = Binary b \<and> ID b' = ID b \<and> Env b' = Env b"
    by (simp add: sys3_def sys0_def)
  have d: "\<forall>lang b b'. builders_WithDefaults sys3 lang b = Ok b' \<longrightarrow>
           builders_WithDefaults sys3 lang b' = Ok b'"
    by (simp add: sys3_def sys0_def)
  show ?thesis
    using buildWithDefaults_idempotent [OF a b c d] a by simp
qed

text \<open>
  C9 as stated fails where a variable's value holds a reference itself: with \<open>A=$B\<close>
  and \<open>B=x\<close> in the process environment, the entry \<open>V=$A\<close> is \<open>V=$B\<close> after one
  defaulting and \<open>V=x\<close> after the next.
\<close>

theorem buildWithDefaults_idempotent_counterexample:
  "buildWithDefaults sys3 ctx0 (build0\<lparr>Env := [''V=$A'']\<rparr>) = Ok (build0\<lparr>Env := [''V=$B'']\<rparr>) \<and>
   buildWithDefaults sys3 ctx0 (build0\<lparr>Env := [''V=$B'']\<rparr>) = Ok (build0\<lparr>Env := [''V=x'']\<rparr>)"
  by (simp add: buildWithDefaults_def Let_def sys3_def sys0_def build0_def ctx0_def)

subsection \<open>The defaulting pass and the identifier registry\<close>

lemma ids_bump_keys: "fst ` set (ids_bump c k) = insert k (fst ` set c)"
  by (induction c k rule: ids_bump.induct) auto

lemma ids_bump_distinct: "distinct (map fst c) \<Longrightarrow> distinct (map fst (ids_bump c k))"
  by (induction c k rule: ids_bump.induct) (auto simp: ids_bump_keys)

lemma ids_bump_map_of:
  "map_of (ids_bump c k) k' =
     (if k' = k then Some (case map_of c k of None \<Rightarrow> 1 | Some n \<Rightarrow> Suc n) else map_of c k')"
  by (induction c k rule: ids_bump.induct) auto

lemma ids_fold_counts:
  "distinct (map fst c) \<Longrightarrow>
   (\<forall>k. map_of c k = (if k \<in> set xs then Some (count_list xs k) else None)) \<Longrightarrow>
   distinct (map fst (foldl ids_bump c ys)) \<and>
   (\<forall>k. map_of (foldl ids_bump c ys) k =
      (if k \<in> set (xs @ ys) then Some (count_list (xs @ ys) k) else None))"
proof (induction ys arbitrary: c xs)
  case Nil
  then show ?case by simp
next
  case (Cons y ys)
  have d: "distinct (map fst (ids_bump c y))"
    using Cons.prems(1) by (rule ids_bump_distinct)
  have m: "\<forall>k. map_of (ids_bump c y) k =
      (if k \<in> set (xs @ [y]) then Some (count_list (xs @ [y]) k) else None)"
    using Cons.prems(2) by (auto simp: ids_bump_map_of)
  from Cons.IH [OF d m] show ?case by simp
qed

lemma ids_counts:
  "distinct (map fst (foldl ids_bump [] xs)) \<and>
   (\<forall>k. map_of (foldl ids_bump [] xs) k =
      (if k \<in> set xs then Some (count_list xs k) else None))"
  using ids_fold_counts [of "[]" "[]" xs] by simp

lemma distinct_count_list: "distinct xs \<longleftrightarrow> (\<forall>k \<in> set xs. count_list xs k = 1)"
  by (induction xs) (auto simp: count_list_0_iff)

lemma ids_Inc_fold:
  "ids_count (foldl ids_Inc i xs) = foldl ids_bump (ids_count i) xs \<and>
   ids_kind (foldl ids_Inc i xs) = ids_kind i"
  by (induction xs arbitrary: i) (simp_all add: ids_Inc_def)

lemma ids_Validate_distinct:
  assumes "ids_count i = foldl ids_bump [] xs"
  shows "(distinct xs \<longrightarrow> ids_Validate i = None) \<and>
         (\<not> distinct xs \<longrightarrow>
            (\<exists>k n. ids_Validate i = Some (DuplicateID (ids_kind i) k n) \<and>
                   1 < n \<and> n = count_list xs k))"
proof (cases "find (\<lambda>(k, n). 1 < n) (ids_count i)")
  case None
  then have all: "\<forall>(k, n) \<in> set (foldl ids_bump [] xs). \<not> 1 < n"
    by (auto simp: find_None_iff assms)
  have "distinct xs"
    unfolding distinct_count_list
  proof
    fix k assume k: "k \<in> set xs"
    with ids_counts [of xs] have "map_of (foldl ids_bump [] xs) k = Some (count_list xs k)"
      by simp
    then have "(k, count_list xs k) \<in> set (foldl ids_bump [] xs)"
      by (rule map_of_SomeD)
    with all have "count_list xs k \<le> 1" by auto
    moreover have "count_list xs k \<noteq> 0"
      using k by (simp add: count_list_0_iff)
    ultimately show "count_list xs k = 1" by simp
  qed
  with None show ?thesis
    by (simp add: ids_Validate_def)
next
  case (Some kn)
  obtain k n where kn: "kn = (k, n)" by (cases kn)
  from Some kn have mem: "(k, n) \<in> set (foldl ids_bump [] xs)" and n: "1 < n"
    by (auto simp: find_Some_iff assms dest: nth_mem)
  have dist: "distinct (map fst (foldl ids_bump [] xs))"
    using ids_counts [of xs] by blast
  from mem have "map_of (foldl ids_bump [] xs) k = Some n"
    using map_of_eq_Some_iff [OF dist] by blast
  with ids_counts [of xs] have c: "k \<in> set xs" "n = count_list xs k"
    by (auto split: if_splits)
  have "\<not> distinct xs"
  proof
    assume "distinct xs"
    with c(1) have "count_list xs k = 1"
      by (simp add: distinct_count_list)
    with n c(2) show False by simp
  qed
  with Some kn n c(2) show ?thesis
    by (auto simp: ids_Validate_def)
qed

lemma Default_loop_Ok:
  "list_all2 (\<lambda>b b1. buildWithDefaults sy ctx b = Ok b1) builds builds' \<Longrightarrow>
   Default_loop sy ctx builds i = (Ok (foldl ids_Inc i (map ID builds')), builds')"
  by (induction builds builds' arbitrary: i rule: list_all2_induct) simp_all

lemma buildWithDefaults_ctx:
  "ProjectName (Config ctx') = ProjectName (Config ctx) \<Longrightarrow>
   buildWithDefaults sy ctx' b = buildWithDefaults sy ctx b"
  by (simp add: buildWithDefaults_def)

lemma Default_many:
  assumes "list_all2 (\<lambda>b b1. buildWithDefaults sy ctx b = Ok b1) (Builds (Config ctx)) builds'"
    and "builds' \<noteq> []"
  shows "Default sy ctx =
     ((case ids_Validate (foldl ids_Inc (ids_New ''builds'') (map ID builds')) of
         None \<Rightarrow> Ok () | Some err \<Rightarrow> Err err),
      ctx\<lparr>Config := (Config ctx)\<lparr>Builds := builds'\<rparr>\<rparr>)"
  using assms(2)
  by (simp add: Default_def Default_loop_Ok [OF assms(1)] Let_def split: option.splits)

lemma Default_single:
  assumes "Builds (Config ctx) = []"
  shows "fst (Default sy ctx) =
     (case buildWithDefaults sy ctx (SingleBuild (Config ctx)) of
        Ok b \<Rightarrow> Ok () | Err err \<Rightarrow> Err err | Panic p \<Rightarrow> Panic p) \<and>
     (\<forall>b. buildWithDefaults sy ctx (SingleBuild (Config ctx)) = Ok b \<longrightarrow>
        Builds (Config (snd (Default sy ctx))) = [b])"
proof -
  have v: "ids_Validate (ids_New ''builds'') = None"
    by (simp add: ids_Validate_def ids_New_def)
  have c: "buildWithDefaults sy (ctx\<lparr>Config := (Config ctx)\<lparr>Builds := []\<rparr>\<rparr>) b =
      buildWithDefaults sy ctx b" for b
    by (rule buildWithDefaults_ctx) simp
  show ?thesis
    using assms
    by (cases "buildWithDefaults sy ctx (SingleBuild (Config ctx))")
       (simp_all add: Default_def Let_def v c)
qed

text \<open>
  C4. Where every build definition of the list is defaulted without error, the
  defaulting pass returns the registry's validation error if two of the defaulted
  builds have the same ID (the error names an ID that occurs more than once, with the
  number of its occurrences), and no error if the IDs are all distinct; the list then
  holds the defaulted builds. Where the list is empty the pass defaults the single
  build, and its result is that of this defaulting alone.
\<close>

theorem Default_validates_ids:
  assumes "list_all2 (\<lambda>b b1. buildWithDefaults sy ctx b = Ok b1) (Builds (Config ctx)) builds'"
  shows "(\<not> distinct (map ID builds') \<longrightarrow>
            (\<exists>k n. fst (Default sy ctx) = Err (DuplicateID ''builds'' k n) \<and>
                   1 < n \<and> n = count_list (map ID builds') k)) \<and>
         (distinct (map ID builds') \<and> builds' \<noteq> [] \<longrightarrow>
            fst (Default sy ctx) = Ok () \<and>
            Builds (Config (snd (Default sy ctx))) = builds') \<and>
         (builds' = [] \<longrightarrow>
            fst (Default sy ctx) =
              (case buildWithDefaults sy ctx (SingleBuild (Config ctx)) of
                 Ok b \<Rightarrow> Ok () | Err err \<Rightarrow> Err err | Panic p \<Rightarrow> Panic p))"
proof -
  let ?i = "foldl ids_Inc (ids_New ''builds'') (map ID builds')"
  have cnt: "ids_count ?i = foldl ids_bump [] (map ID builds')" and kind: "ids_kind ?i = ''builds''"
    using ids_Inc_fold [of "ids_New ''builds''" "map ID builds'"]
    by (simp_all add: ids_New_def)
  note v = ids_Validate_distinct [OF cnt, unfolded kind]
  have a: "\<not> distinct (map ID builds') \<longrightarrow>
            (\<exists>k n. fst (Default sy ctx) = Err (DuplicateID ''builds'' k n) \<and>
                   1 < n \<and> n = count_list (map ID builds') k)"
  proof
    assume nd: "\<not> distinct (map ID builds')"
    then have ne: "builds' \<noteq> []" by auto
    from v nd obtain k n where "ids_Validate ?i = Some (DuplicateID ''builds'' k n)"
      and "1 < n" and "n = count_list (map ID builds') k"
      by blast
    then show "\<exists>k n. fst (Default sy ctx) = Err (DuplicateID ''builds'' k n) \<and>
                   1 < n \<and> n = count_list (map ID builds') k"
      by (simp add: Default_many [OF assms ne])
  qed
  have b: "distinct (map ID builds') \<and> builds' \<noteq> [] \<longrightarrow>
            fst (Default sy ctx) = Ok () \<and>
            Builds (Config (snd (Default sy ctx))) = builds'"
  proof
    assume "distinct (map ID builds') \<and> builds' \<noteq> []"
    then have d: "distinct (map ID builds')" and ne: "builds' \<noteq> []" by simp_all
    from v d have "ids_Validate ?i = None" by blast
    then show "fst (Default sy ctx) = Ok () \<and>
            Builds (Config (snd (Default sy ctx))) = builds'"
      by (simp add: Default_many [OF assms ne])
  qed
  have c: "builds' = [] \<longrightarrow>
            fst (Default sy ctx) =
              (case buildWithDefaults sy ctx (SingleBuild (Config ctx)) of
                 Ok b \<Rightarrow> Ok () | Err err \<Rightarrow> Err err | Panic p \<Rightarrow> Panic p)"
  proof
    assume "builds' = []"
    with assms have "Builds (Config ctx) = []" by simp
    from Default_single [OF this] show "fst (Default sy ctx) =
              (case buildWithDefaults sy ctx (SingleBuild (Config ctx)) of
                 Ok b \<Rightarrow> Ok () | Err err \<Rightarrow> Err err | Panic p \<Rightarrow> Panic p)"
      by blast
  qed
  from a b c show ?thesis by blast
qed

lemma buildWithDefaults_sys0:
  "ProjectName (Config ctx) = ''app'' \<Longrightarrow> buildWithDefaults sys0 ctx build0 = Ok build0"
  by (simp add: buildWithDefaults_def Let_def sys0_def build0_def)

lemma buildWithDefaults_sys0_no_ID:
  "ProjectName (Config ctx) = ''app'' \<Longrightarrow>
     buildWithDefaults sys0 ctx (build0\<lparr>ID := ''''\<rparr>) = Ok build0"
  by (simp add: buildWithDefaults_def Let_def sys0_def build0_def)

lemma buildWithDefaults_sys0_cli:
  "buildWithDefaults sys0 ctx (build0\<lparr>ID := ''cli''\<rparr>) = Ok (build0\<lparr>ID := ''cli''\<rparr>)"
  by (simp add: buildWithDefaults_def Let_def sys0_def build0_def)

text \<open>
  A build without ID beside the build \<open>app\<close> of the project \<open>app\<close>: both end up as
  \<open>app\<close>, and the pass fails. Two builds \<open>app\<close> and \<open>cli\<close>, and an empty list: no error.
\<close>

theorem Default_validates_ids_witness:
  "fst (Default sys0 (ctx0\<lparr>Config := (Config ctx0)\<lparr>Builds := [build0\<lparr>ID := ''''\<rparr>, build0]\<rparr>\<rparr>)) =
     Err (DuplicateID ''builds'' ''app'' 2) \<and>
   \<not> distinct (map ID [build0, build0]) \<and>
   fst (Default sys0 (ctx0\<lparr>Config := (Config ctx0)\<lparr>Builds := [build0, build0\<lparr>ID := ''cli''\<rparr>]\<rparr>\<rparr>)) =
     Ok () \<and>
   distinct (map ID [build0, build0\<lparr>ID := ''cli''\<rparr>]) \<and>
   fst (Default sys0 (ctx0\<lparr>Config := (Config ctx0)\<lparr>Builds := []\<rparr>\<rparr>)) = Ok ()"
proof -
  let ?c1 = "ctx0\<lparr>Config := (Config ctx0)\<lparr>Builds := [build0\<lparr>ID := ''''\<rparr>, build0]\<rparr>\<rparr>"
  let ?c2 = "ctx0\<lparr>Config := (Config ctx0)\<lparr>Builds := [build0, build0\<lparr>ID := ''cli''\<rparr>]\<rparr>\<rparr>"
  let ?c3 = "ctx0\<lparr>Config := (Config ctx0)\<lparr>Builds := []\<rparr>\<rparr>"
  have p: "ProjectName (Config ?c1) = ''app''" "ProjectName (Config ?c2) = ''app''"
    "ProjectName (Config ?c3) = ''app''"
    by (simp_all add: ctx0_def)
  have l1: "list_all2 (\<lambda>b b1. buildWithDefaults sys0 ?c1 b = Ok b1) (Builds (Config ?c1))
      [build0, build0]"
    using buildWithDefaults_sys0 [OF p(1)] buildWithDefaults_sys0_no_ID [OF p(1)] by simp
  have l2: "list_all2 (\<lambda>b b1. buildWithDefaults sys0 ?c2 b = Ok b1) (Builds (Config ?c2))
      [build0, build0\<lparr>ID := ''cli''\<rparr>]"
    using buildWithDefaults_sys0 [OF p(2)] buildWithDefaults_sys0_cli [of ?c2] by simp
  have l3: "list_all2 (\<lambda>b b1. buildWithDefaults sys0 ?c3 b = Ok b1) (Builds (Config ?c3)) []"
    by simp
  have s3: "buildWithDefaults sys0 ?c3 (SingleBuild (Config ?c3)) = Ok build0"
    using buildWithDefaults_sys0 [OF p(3)] by (simp add: ctx0_def)
  have d1: "\<not> distinct (map ID [build0, build0])"
    by simp
  have d2: "distinct (map ID [build0, build0\<lparr>ID := ''cli''\<rparr>])"
    by (simp add: build0_def)
  have c: "count_list (map ID [build0, build0]) k = (if k = ''app'' then 2 else 0)" for k
    by (simp add: build0_def)
  from Default_validates_ids [OF l1] d1 obtain k n where
    e: "fst (Default sys0 ?c1) = Err (DuplicateID ''builds'' k n)" and n: "1 < n"
    and k: "n = count_list (map ID [build0, build0]) k"
    by blast
  from n k c have "k = ''app''" "n = 2"
    by (auto split: if_splits)
  with e have r1: "fst (Default sys0 ?c1) = Err (DuplicateID ''builds'' ''app'' 2)"
    by simp
  from Default_validates_ids [OF l2] d2 have r2: "fst (Default sys0 ?c2) = Ok ()"
    by simp
  from Default_validates_ids [OF l3] s3 have r3: "fst (Default sys0 ?c3) = Ok ()"
    by simp
  from r1 r2 r3 d1 d2 show ?thesis by blast
qed

subsection \<open>The targets of one build\<close>

lemma errors_of_set: "set (errors_of rs) = {err. Err err \<in> set rs}"
  by (induction rs rule: errors_of.induct) auto

lemma errors_of_Nil: "errors_of rs = [] \<longleftrightarrow> (\<forall>err. Err err \<notin> set rs)"
  using errors_of_set [of rs] by auto

lemma run_each_length: "run_each fns tr = (rs, tr') \<Longrightarrow> length rs = length fns"
  by (induction fns arbitrary: tr rs) (auto split: prod.splits)

lemma semerrgroup_run_each:
  "run_each fns tr = (rs, tr') \<Longrightarrow> \<forall>p. Panic p \<notin> set rs \<Longrightarrow>
   semerrgroup_run fns errs tr = (Ok (errs @ errors_of rs), tr')"
proof (induction fns arbitrary: tr rs errs)
  case Nil
  then show ?case by simp
next
  case (Cons fn fns)
  obtain r tr1 where f: "fn tr = (r, tr1)" by (cases "fn tr")
  obtain rs1 tr2 where e: "run_each fns tr1 = (rs1, tr2)" by (cases "run_each fns tr1")
  from Cons.prems(1) f e have rs: "rs = r # rs1" and tr': "tr' = tr2"
    by simp_all
  from Cons.prems(2) rs have np: "\<forall>p. Panic p \<notin> set rs1" and nr: "\<forall>p. r \<noteq> Panic p"
    by auto
  from e tr' have e': "run_each fns tr1 = (rs1, tr')" by simp
  note ih = Cons.IH [OF e' np]
  show ?case
  proof (cases r)
    case (Ok u)
    with f ih [of errs] rs tr' show ?thesis by simp
  next
    case (Err err)
    with f ih [of "errs @ [err]"] rs tr' show ?thesis by simp
  next
    case (Panic p)
    with nr show ?thesis by simp
  qed
qed

lemma group_tasks_foldl:
  "group_tasks (foldl (\<lambda>g target. semerrgroup_Go g (f target)) g0 targets) =
     group_tasks g0 @ map f targets"
  by (induction targets arbitrary: g0) (simp_all add: semerrgroup_Go_def)

text \<open>
  C1, on the task group as the spec describes it. When the build is not stopped by its
  proxy and no task panics, every target's task runs to its end, whatever the tasks
  before it returned; if any of them fails, \<open>runPipeOnBuild\<close> fails with the aggregate
  of the errors of all the failed tasks, and otherwise it succeeds. The trace is the one
  all the tasks leave.
\<close>

theorem runPipeOnBuild_aggregates:
  assumes "proxy sy ctx build tr = ((build', None), tr1)"
    and "run_each (map (runPipeOnBuild_task sy ctx build') (Targets build')) tr1 = (rs, tr2)"
    and "\<forall>p. Panic p \<notin> set rs"
  shows "length rs = length (Targets build') \<and>
         set (errors_of rs) = {err. Err err \<in> set rs} \<and>
         ((\<exists>err. Err err \<in> set rs) \<longrightarrow>
            runPipeOnBuild sy ctx build tr = (Err (Aggregate (errors_of rs)), tr2)) \<and>
         ((\<forall>err. Err err \<notin> set rs) \<longrightarrow> runPipeOnBuild sy ctx build tr = (Ok (), tr2))"
proof -
  have len: "length rs = length (Targets build')"
    using run_each_length [OF assms(2)] by simp
  have run: "semerrgroup_run (map (runPipeOnBuild_task sy ctx build') (Targets build')) [] tr1 =
      (Ok (errors_of rs), tr2)"
    using semerrgroup_run_each [OF assms(2) assms(3), of "[]"] by simp
  have pipe: "runPipeOnBuild sy ctx build tr =
      (if errors_of rs = [] then (Ok (), tr2) else (Err (Aggregate (errors_of rs)), tr2))"
    by (simp add: runPipeOnBuild_def assms(1) semerrgroup_Wait_def group_tasks_foldl
        semerrgroup_New_def run)
  show ?thesis
    using len pipe errors_of_Nil [of rs] by (auto simp: errors_of_set)
qed

lemma run_each_sys4:
  "run_each (map (runPipeOnBuild_task sys4 ctx0 build4) (Targets build4)) [] =
     ([Err (External ''no compiler for windows_amd64''), Ok (),
       Err (External ''no compiler for windows_arm64'')],
      [Log Info [(''binary'', FStr ''/work/dist/app_windows_amd64/app.exe'')] ''building'',
       BuilderBuild ''go'' build4
         \<lparr>Target = ''windows_amd64'', Ext = ''.exe'', Os = ''windows'', Arch = ''amd64'',
            Name = ''app.exe'', Path = ''/work/dist/app_windows_amd64/app.exe''\<rparr>,
       Log Info [(''binary'', FStr ''/work/dist/app_linux_amd64/app'')] ''building'',
       BuilderBuild ''go'' build4
         \<lparr>Target = ''linux_amd64'', Ext = '''', Os = ''linux'', Arch = ''amd64'',
            Name = ''app'', Path = ''/work/dist/app_linux_amd64/app''\<rparr>,
       Log Info [(''binary'', FStr ''/work/dist/app_windows_arm64/app.exe'')] ''building'',
       BuilderBuild ''go'' build4
         \<lparr>Target = ''windows_arm64'', Ext = ''.exe'', Os = ''windows'', Arch = ''arm64'',
            Name = ''app.exe'', Path = ''/work/dist/app_windows_arm64/app.exe''\<rparr>])"
  by (simp add: pipe_defs sys4_def build4_def concrete_defs)

lemma proxy_sys4: "proxy sys4 ctx0 build4 [] = ((build4, None), [])"
  by (simp add: proxy_def sys4_def sys0_def build4_def build0_def)

text \<open>
  The first and the third target fail, the second is built after the first has failed,
  and the result holds both errors.
\<close>

theorem runPipeOnBuild_aggregates_witness:
  "runPipeOnBuild sys4 ctx0 build4 [] =
     (Err (Aggregate [External ''no compiler for windows_amd64'',
                      External ''no compiler for windows_arm64'']),
      [Log Info [(''binary'', FStr ''/work/dist/app_windows_amd64/app.exe'')] ''building'',
       BuilderBuild ''go'' build4
         \<lparr>Target = ''windows_amd64'', Ext = ''.exe'', Os = ''windows'', Arch = ''amd64'',
            Name = ''app.exe'', Path = ''/work/dist/app_windows_amd64/app.exe''\<rparr>,
       Log Info [(''binary'', FStr ''/work/dist/app_linux_amd64/app'')] ''building'',
       BuilderBuild ''go'' build4
         \<lparr>Target = ''linux_amd64'', Ext = '''', Os = ''linux'', Arch = ''amd64'',
            Name = ''app'', Path = ''/work/dist/app_linux_amd64/app''\<rparr>,
       Log Info [(''binary'', FStr ''/work/dist/app_windows_arm64/app.exe'')] ''building'',
       BuilderBuild ''go'' build4
         \<lparr>Target = ''windows_arm64'', Ext = ''.exe'', Os = ''windows'', Arch = ''arm64'',
            Name = ''app.exe'', Path = ''/work/dist/app_windows_arm64/app.exe''\<rparr>])"
proof -
  have np: "\<forall>p. Panic p \<notin> set [Err (External ''no compiler for windows_amd64''), Ok (),
       Err (External ''no compiler for windows_arm64'')]"
    by simp
  have ex: "\<exists>err. Err err \<in> set [Err (External ''no compiler for windows_amd64''), Ok (),
       Err (External ''no compiler for windows_arm64'')]"
    by (rule exI [of _ "External ''no compiler for windows_amd64''"]) simp
  from runPipeOnBuild_aggregates [OF proxy_sys4 run_each_sys4 np] ex
  have "runPipeOnBuild sys4 ctx0 build4 [] =
     (Err (Aggregate (errors_of [Err (External ''no compiler for windows_amd64''), Ok (),
       Err (External ''no compiler for windows_arm64'')])),
      [Log Info [(''binary'', FStr ''/work/dist/app_windows_amd64/app.exe'')] ''building'',
       BuilderBuild ''go'' build4
         \<lparr>Target = ''windows_amd64'', Ext = ''.exe'', Os = ''windows'', Arch = ''amd64'',
            Name = ''app.exe'', Path = ''/work/dist/app_windows_amd64/app.exe''\<rparr>,
       Log Info [(''binary'', FStr ''/work/dist/app_linux_amd64/app'')] ''building'',
       BuilderBuild ''go'' build4
         \<lparr>Target = ''linux_amd64'', Ext = [], Os = ''linux'', Arch = ''amd64'',
            Name = ''app'', Path = ''/work/dist/app_linux_amd64/app''\<rparr>,
       Log Info [(''binary'', FStr ''/work/dist/app_windows_arm64/app.exe'')] ''building'',
       BuilderBuild ''go'' build4
         \<lparr>Target = ''windows_arm64'', Ext = ''.exe'', Os = ''windows'', Arch = ''arm64'',
            Name = ''app.exe'', Path = ''/work/dist/app_windows_arm64/app.exe''\<rparr>])"
    by blast
  then show ?thesis by simp
qed

end
